theory Spec2Isabelle
  imports Complex_Main "HOL-Library.Multiset"
begin

section \<open>The species of goNEAT: data model\<close>

text \<open>
  The development follows \<^verbatim>\<open>neat/genetics/species.go\<close>.

  Conventions of the embedding.
  \<^item> Go's \<^verbatim>\<open>float64\<close> is read as \<^typ>\<open>real\<close>: exact arithmetic, no rounding, no
    infinities, no NaN. The constants \<^verbatim>\<open>0.01\<close> and \<^verbatim>\<open>0.0001\<close> are the exact
    fractions.
  \<^item> Go's \<^verbatim>\<open>int\<close> is read as \<^typ>\<open>int\<close>; the values the functions compute with
    (ages, sizes, offspring counts) are taken to stay inside the machine range.
  \<^item> \<^verbatim>\<open>*Organism\<close> and \<^verbatim>\<open>*Species\<close> are addresses into explicit stores, since
    the code shares and mutates organisms and species through pointers. All
    addresses held by a species are taken to be valid (not \<^verbatim>\<open>nil\<close>).
  \<^item> A run-time panic (index out of range) is a result value of its own, distinct from
    an error the function returns.
\<close>

type_synonym orgref = nat
type_synonym specref = nat

text \<open>
  The fields of \<^verbatim>\<open>Organism\<close> that \<^verbatim>\<open>species.go\<close> reads or writes (the declaration of
  the struct is outside the file). The type parameter is the type of genome handles
  (\<^verbatim>\<open>*Genome\<close>). The organism's own \<^verbatim>\<open>ExpectedOffspring\<close> is named
  \<open>OrgExpectedOffspring\<close> to keep it apart from the field of the species.
\<close>

record 'g Organism =
  Fitness :: real
  OriginalFitness :: real
  OrgExpectedOffspring :: real
  IsChampion :: bool
  ToEliminate :: bool
  SuperChampOffspring :: int
  IsPopulationChampion :: bool
  IsPopulationChampionChild :: bool
  highestFitness :: real
  mutationStructBaby :: bool
  mateBaby :: bool
  GNome :: 'g
  Generation :: int
  SpeciesOf :: "specref option"

record Species =
  SpeciesId :: int
  Age :: int
  AvgFitness :: real
  MaxFitness :: real
  MaxFitnessEver :: real
  ExpectedOffspring :: int
  IsNovel :: bool
  IsChecked :: bool
  Organisms :: "orgref list"
  AgeOfLastImprovement :: int

type_synonym 'g orgstore = "orgref \<Rightarrow> 'g Organism"

datatype fault = ErrorValue string | RuntimePanic string

definition newSpecies :: "int \<Rightarrow> Species" where
  "newSpecies i = \<lparr>SpeciesId = i, Age = 1, AvgFitness = 0, MaxFitness = 0,
     MaxFitnessEver = 0, ExpectedOffspring = 0, IsNovel = False, IsChecked = False,
     Organisms = [], AgeOfLastImprovement = 0\<rparr>"

definition NewSpeciesNovel :: "int \<Rightarrow> bool \<Rightarrow> Species" where
  "NewSpeciesNovel i novel = (newSpecies i)\<lparr>IsNovel := novel\<rparr>"

section \<open>Membership: addOrganism and removeOrganism\<close>

definition addOrganism :: "Species \<Rightarrow> orgref \<Rightarrow> Species" where
  "addOrganism s o' = s\<lparr>Organisms := Organisms s @ [o']\<rparr>"

text \<open>
  \<^verbatim>\<open>removeOrganism\<close> returns \<^verbatim>\<open>(bool, error)\<close> and updates the species only on
  success. The pair of results is kept as the code has it; the error is its message.
\<close>

definition removeOrganism :: "Species \<Rightarrow> orgref \<Rightarrow> (bool \<times> string option) \<times> Species" where
  "removeOrganism s org =
     (let orgs = filter (\<lambda>o'. o' \<noteq> org) (Organisms s)
      in if int (length orgs) \<noteq> int (length (Organisms s)) - 1
         then ((False, Some ''ALERT: Attempt to remove nonexistent Organism from Species''), s)
         else ((True, None), s\<lparr>Organisms := orgs\<rparr>))"

section \<open>Aggregates: computeMaxFitness and findChampion\<close>

fun max_loop :: "real list \<Rightarrow> real \<Rightarrow> real" where
  "max_loop [] m = m"
| "max_loop (f # fs) m = max_loop fs (if f > m then f else m)"

definition computeMaxFitness :: "Species \<Rightarrow> 'g orgstore \<Rightarrow> real \<times> Species" where
  "computeMaxFitness s h =
     (let m = max_loop (map (\<lambda>o'. Fitness (h o')) (Organisms s)) 0
      in (m, s\<lparr>MaxFitness := m\<rparr>))"

text \<open>
  The loop of \<^verbatim>\<open>findChampion\<close>, with its two variables \<^verbatim>\<open>best_fitness\<close> and
  \<^verbatim>\<open>champion\<close> (\<open>None\<close> is \<^verbatim>\<open>nil\<close>).
\<close>

fun champion_loop :: "'g orgstore \<Rightarrow> orgref list \<Rightarrow> real \<Rightarrow> orgref option \<Rightarrow> orgref option" where
  "champion_loop h [] best_fitness champion = champion"
| "champion_loop h (o' # os) best_fitness champion =
     (if Fitness (h o') > best_fitness
      then champion_loop h os (Fitness (h o')) (Some o')
      else champion_loop h os best_fitness champion)"

definition findChampion :: "Species \<Rightarrow> 'g orgstore \<Rightarrow> orgref option" where
  "findChampion s h = champion_loop h (Organisms s) 0 None"

section \<open>Offspring allocation: countOffspring\<close>

definition math_Floor :: "real \<Rightarrow> real" where
  "math_Floor x = of_int \<lfloor>x\<rfloor>"

text \<open>
  \<^verbatim>\<open>math.Mod(x, y)\<close> is the remainder of the division truncated towards zero; it has
  the sign of \<open>x\<close>. (The special cases for NaN, infinities and \<open>y = 0\<close> have no
  counterpart over the reals; the code calls it with \<open>y = 1.0\<close> only.)
\<close>

definition truncate_real :: "real \<Rightarrow> int" where
  "truncate_real z = (if z \<ge> 0 then \<lfloor>z\<rfloor> else \<lceil>z\<rceil>)"

definition math_Mod :: "real \<Rightarrow> real \<Rightarrow> real" where
  "math_Mod x y = x - y * of_int (truncate_real (x / y))"

text \<open>
  One pass of the loop body of \<^verbatim>\<open>countOffspring\<close> over the expected offspring of one
  organism; the state is \<^verbatim>\<open>(s.ExpectedOffspring, skim)\<close>.
\<close>

definition countOffspring_step :: "real \<Rightarrow> int \<times> real \<Rightarrow> int \<times> real" where
  "countOffspring_step x st =
     (let e_o_intpart = \<lfloor>math_Floor x\<rfloor>;
          e_o_fracpart = math_Mod x 1;
          eo = fst st + e_o_intpart;
          skim = snd st + e_o_fracpart
      in if skim \<ge> 1
         then (let skim_intpart = math_Floor skim in (eo + \<lfloor>skim_intpart\<rfloor>, skim - skim_intpart))
         else (eo, skim))"

fun countOffspring_loop :: "real list \<Rightarrow> int \<times> real \<Rightarrow> int \<times> real" where
  "countOffspring_loop [] st = st"
| "countOffspring_loop (x # xs) st = countOffspring_loop xs (countOffspring_step x st)"

definition countOffspring :: "Species \<Rightarrow> 'g orgstore \<Rightarrow> real \<Rightarrow> real \<times> Species" where
  "countOffspring s h skim =
     (let r = countOffspring_loop (map (\<lambda>o'. OrgExpectedOffspring (h o')) (Organisms s)) (0, skim)
      in (snd r, s\<lparr>ExpectedOffspring := fst r\<rparr>))"

text \<open>
  The chaining of the skim that the caller performs: the species are processed in the
  given (rank) order and each call receives the skim the previous one returned.
\<close>

fun countOffspring_chain :: "Species list \<Rightarrow> 'g orgstore \<Rightarrow> real \<Rightarrow> real \<times> Species list" where
  "countOffspring_chain [] h skim = (skim, [])"
| "countOffspring_chain (s # ss) h skim =
     (let r = countOffspring s h skim;
          rest = countOffspring_chain ss h (fst r)
      in (fst rest, snd r # snd rest))"

definition shares :: "Species \<Rightarrow> 'g orgstore \<Rightarrow> real" where
  "shares s h = sum_list (map (\<lambda>o'. OrgExpectedOffspring (h o')) (Organisms s))"


section \<open>Fitness adjustment: adjustFitness\<close>

text \<open>
  The options of \<^verbatim>\<open>neat.Neat\<close> that \<^verbatim>\<open>species.go\<close> reads (the declaration of the
  struct is outside the file).
\<close>

record Neat =
  DropOffAge :: int
  AgeSignificance :: real
  SurvivalThresh :: real
  WeightMutPower :: real
  MutateOnlyProb :: real
  MutateAddNodeProb :: real
  MutateAddLinkProb :: real
  InterspeciesMateRate :: real
  MateMultipointProb :: real
  MateMultipointAvgProb :: real
  MateSinglepointProb :: real
  MateOnlyProb :: real
  NewLinkTries :: int
  CompatThreshold :: real
  PopSize :: int

text \<open>
  Modelled from the spec: the comparison of \<^verbatim>\<open>ByFitness\<close>, whose declaration is not
  in \<^verbatim>\<open>species.go\<close>. The spec has the organisms sorted by descending fitness with no
  secondary key, so an organism is ``less'' than another when its fitness is greater.
\<close>

definition ByFitness_Less :: "'g orgstore \<Rightarrow> orgref \<Rightarrow> orgref \<Rightarrow> bool" where
  "ByFitness_Less h a b = (Fitness (h a) > Fitness (h b))"

text \<open>
  \<^verbatim>\<open>sort.Sort\<close> belongs to Go's library. \<^verbatim>\<open>adjustFitness\<close> takes it as a parameter,
  and the library's documentation is the contract: for a \<^verbatim>\<open>Less\<close> that is a strict
  weak order the result is a rearrangement of the input in ascending order as
  determined by \<^verbatim>\<open>Less\<close>; the sort is not guaranteed to be stable.
\<close>

type_synonym sorter = "(orgref \<Rightarrow> orgref \<Rightarrow> bool) \<Rightarrow> orgref list \<Rightarrow> orgref list"

definition strict_weak_order :: "('a \<Rightarrow> 'a \<Rightarrow> bool) \<Rightarrow> bool" where
  "strict_weak_order lt =
     ((\<forall>a. \<not> lt a a)
      \<and> (\<forall>a b c. lt a b \<and> lt b c \<longrightarrow> lt a c)
      \<and> (\<forall>a b c. \<not> lt a b \<and> \<not> lt b c \<longrightarrow> \<not> lt a c))"

definition sort_contract :: "sorter \<Rightarrow> bool" where
  "sort_contract srt =
     (\<forall>lt xs. strict_weak_order lt \<longrightarrow>
        mset (srt lt xs) = mset xs \<and> sorted_wrt (\<lambda>a b. \<not> lt b a) (srt lt xs))"

text \<open>
  Two sorting procedures that meet the contract. The first is insertion sort: each
  element in turn moves left past the elements it is less than. The second runs one
  pass that compares and swaps the elements six positions apart before the insertion
  sort; this is what the quicksort behind \<^verbatim>\<open>sort.Sort\<close> did on slices of at most
  twelve elements in the Go releases of the years of this code.
\<close>

fun insert_sorted :: "('a \<Rightarrow> 'a \<Rightarrow> bool) \<Rightarrow> 'a \<Rightarrow> 'a list \<Rightarrow> 'a list" where
  "insert_sorted lt x [] = [x]"
| "insert_sorted lt x (y # ys) =
     (if lt x y then x # y # ys else y # insert_sorted lt x ys)"

definition insertionSort :: "('a \<Rightarrow> 'a \<Rightarrow> bool) \<Rightarrow> 'a list \<Rightarrow> 'a list" where
  "insertionSort lt xs = foldl (\<lambda>acc x. insert_sorted lt x acc) [] xs"

definition shell_swap :: "('a \<Rightarrow> 'a \<Rightarrow> bool) \<Rightarrow> 'a list \<Rightarrow> nat \<Rightarrow> 'a list" where
  "shell_swap lt ys i =
     (if lt (ys ! i) (ys ! (i - 6)) then ys[i := ys ! (i - 6), i - 6 := ys ! i] else ys)"

definition shellPass :: "('a \<Rightarrow> 'a \<Rightarrow> bool) \<Rightarrow> 'a list \<Rightarrow> 'a list" where
  "shellPass lt xs = foldl (shell_swap lt) xs [6..<length xs]"

definition shellInsertionSort :: "('a \<Rightarrow> 'a \<Rightarrow> bool) \<Rightarrow> 'a list \<Rightarrow> 'a list" where
  "shellInsertionSort lt xs = insertionSort lt (shellPass lt xs)"

text \<open>The age debt, with a debt of 0 forced to 1.\<close>

definition age_debt :: "Neat \<Rightarrow> Species \<Rightarrow> int" where
  "age_debt conf s =
     (let d = (Age s - AgeOfLastImprovement s + 1) - DropOffAge conf
      in if d = 0 then 1 else d)"

text \<open>The body of the first loop, on one organism.\<close>

definition adjust_organism :: "Neat \<Rightarrow> Species \<Rightarrow> 'g Organism \<Rightarrow> 'g Organism" where
  "adjust_organism conf s org =
     (let org1 = org\<lparr>OriginalFitness := Fitness org\<rparr>;
          org2 = (if age_debt conf s \<ge> 1 then org1\<lparr>Fitness := Fitness org1 * (1 / 100)\<rparr> else org1);
          org3 = (if Age s \<le> 10 then org2\<lparr>Fitness := Fitness org2 * AgeSignificance conf\<rparr> else org2);
          org4 = (if Fitness org3 < 0 then org3\<lparr>Fitness := 1 / 10000\<rparr> else org3)
      in org4\<lparr>Fitness := Fitness org4 / real (length (Organisms s))\<rparr>)"

fun adjust_loop :: "Neat \<Rightarrow> Species \<Rightarrow> orgref list \<Rightarrow> 'g orgstore \<Rightarrow> 'g orgstore" where
  "adjust_loop conf s [] h = h"
| "adjust_loop conf s (a # as) h = adjust_loop conf s as (h(a := adjust_organism conf s (h a)))"

text \<open>
  The last loop, \<^verbatim>\<open>for c := num_parents; c < len(s.Organisms); c++\<close>. An index below
  zero is a run-time panic.
\<close>

function mark_loop :: "int \<Rightarrow> orgref list \<Rightarrow> 'g orgstore \<Rightarrow> fault + 'g orgstore" where
  "mark_loop c orgs h =
     (if c < int (length orgs)
      then (if c < 0 then Inl (RuntimePanic ''index out of range'')
            else mark_loop (c + 1) orgs (h(orgs ! nat c := (h (orgs ! nat c))\<lparr>ToEliminate := True\<rparr>)))
      else Inr h)"
  by pat_completeness auto
termination
  by (relation "measure (\<lambda>(c, orgs, h). nat (int (length orgs) - c))") auto

declare mark_loop.simps [simp del]

definition num_parents :: "Neat \<Rightarrow> nat \<Rightarrow> int" where
  "num_parents conf n = \<lfloor>math_Floor (SurvivalThresh conf * real n + 1)\<rfloor>"

definition adjustFitness :: "sorter \<Rightarrow> Neat \<Rightarrow> Species \<Rightarrow> 'g orgstore \<Rightarrow> fault + (Species \<times> 'g orgstore)" where
  "adjustFitness srt conf s h =
     (let h1 = adjust_loop conf s (Organisms s) h;
          s1 = s\<lparr>Organisms := srt (ByFitness_Less h1) (Organisms s)\<rparr>
      in if Organisms s1 = [] then Inl (RuntimePanic ''index out of range'')
         else
           (let s2 = (if OriginalFitness (h1 (Organisms s1 ! 0)) > MaxFitnessEver s1
                      then s1\<lparr>AgeOfLastImprovement := Age s1,
                              MaxFitnessEver := OriginalFitness (h1 (Organisms s1 ! 0))\<rparr>
                      else s1);
                h2 = h1(Organisms s2 ! 0 := (h1 (Organisms s2 ! 0))\<lparr>IsChampion := True\<rparr>)
            in case mark_loop (num_parents conf (length (Organisms s2))) (Organisms s2) h2 of
                 Inl e \<Rightarrow> Inl e
               | Inr h3 \<Rightarrow> Inr (s2, h3)))"

text \<open>
  Closed forms used in the proofs: the store after the first loop, the organism list
  after the sort, and the store after the last loop.
\<close>

definition mark_set :: "orgref set \<Rightarrow> 'g orgstore \<Rightarrow> 'g orgstore" where
  "mark_set A h = (\<lambda>a. if a \<in> A then (h a)\<lparr>ToEliminate := True\<rparr> else h a)"

definition adjusted_store :: "Neat \<Rightarrow> Species \<Rightarrow> 'g orgstore \<Rightarrow> 'g orgstore" where
  "adjusted_store conf s h = adjust_loop conf s (Organisms s) h"

definition sorted_orgs :: "sorter \<Rightarrow> Neat \<Rightarrow> Species \<Rightarrow> 'g orgstore \<Rightarrow> orgref list" where
  "sorted_orgs srt conf s h = srt (ByFitness_Less (adjusted_store conf s h)) (Organisms s)"

text \<open>
  Stability as the specification words it: organisms of equal fitness keep their
  relative order, that is, for each fitness value the organisms holding it come in the
  same order before and after.
\<close>

definition stable_by_fitness :: "'g orgstore \<Rightarrow> orgref list \<Rightarrow> orgref list \<Rightarrow> bool" where
  "stable_by_fitness h before after =
     (\<forall>a \<in> set before. filter (\<lambda>b. Fitness (h b) = Fitness (h a)) after
                          = filter (\<lambda>b. Fitness (h b) = Fitness (h a)) before)"

section \<open>Reproduction: reproduce\<close>

subsection \<open>The state\<close>

text \<open>
  \<^verbatim>\<open>reproduce\<close> works on the species it is called on, on the population's species list
  (where offspring are added and new species registered), on the organisms it reads and
  creates, on the genomes, and on the shared random generator. The state of the model
  holds them all: a store of organisms and one of species, each with the next unused
  address (an allocation returns an address not in use), the fields of
  \<^verbatim>\<open>Population\<close> that the code touches, the state of the genome collaborator, and
  the generator.
\<close>

record Population =
  species :: "specref list"
  lastSpecies :: int

text \<open>
  The generator is an explicit input: the sequence of values that the calls of
  \<^verbatim>\<open>rand.Float64\<close>, \<^verbatim>\<open>rand.Int31n\<close> and \<^verbatim>\<open>gaussian.StdGaussian\<close> of
  \<^verbatim>\<open>species.go\<close> return, in call order. The \<open>k\<close>-th call reads entry \<open>k\<close> of the
  sequence of its kind. \<^verbatim>\<open>rand.Float64\<close> returns a number in [0, 1);
  \<^verbatim>\<open>rand.Int31n(n)\<close> returns a number in [0, n) and panics for \<open>n \<le> 0\<close>.
\<close>

record rng =
  floats :: "nat \<Rightarrow> real"
  ints :: "nat \<Rightarrow> nat"
  gaussians :: "nat \<Rightarrow> real"
  drawn :: nat

definition rand_Float64 :: "rng \<Rightarrow> real \<times> rng" where
  "rand_Float64 g = (floats g (drawn g), g\<lparr>drawn := drawn g + 1\<rparr>)"

definition rand_Int31n :: "int \<Rightarrow> rng \<Rightarrow> fault + (int \<times> rng)" where
  "rand_Int31n n g =
     (if n \<le> 0 then Inl (RuntimePanic ''invalid argument to Int31n'')
      else Inr (int (ints g (drawn g) mod nat n), g\<lparr>drawn := drawn g + 1\<rparr>))"

definition StdGaussian :: "rng \<Rightarrow> real \<times> rng" where
  "StdGaussian g = (gaussians g (drawn g), g\<lparr>drawn := drawn g + 1\<rparr>)"

text \<open>
  The genome collaborator, whose code is outside \<^verbatim>\<open>species.go\<close>: its operations are
  parameters. \<open>'g\<close> is the type of genome handles (\<^verbatim>\<open>*Genome\<close>, with \<^verbatim>\<open>nil\<close>) and
  \<open>'w\<close> the state the operations work on (the genomes behind the handles, the
  innovations of the population, the collaborator's own use of randomness). An
  operation that changes a genome in place changes that state. The operations are
  taken to return and to leave the organisms and the species list alone.
\<close>

record ('g, 'w) genome_ops =
  nil_genome :: 'g
  duplicate :: "'g \<Rightarrow> int \<Rightarrow> 'w \<Rightarrow> 'g \<times> 'w"
  compatibility :: "'g \<Rightarrow> 'g \<Rightarrow> 'w \<Rightarrow> real"
  GenomeId :: "'g \<Rightarrow> 'w \<Rightarrow> int"
  mutateAddNode :: "'g \<Rightarrow> 'w \<Rightarrow> 'w"
  mutateAddLink :: "'g \<Rightarrow> int \<Rightarrow> 'w \<Rightarrow> 'w"
  mutateLinkWeights :: "'g \<Rightarrow> real \<Rightarrow> real \<Rightarrow> 'w \<Rightarrow> 'w"
  mutateAllNonstructural :: "'g \<Rightarrow> Neat \<Rightarrow> 'w \<Rightarrow> 'w"
  mateMultipoint :: "'g \<Rightarrow> 'g \<Rightarrow> int \<Rightarrow> real \<Rightarrow> real \<Rightarrow> 'w \<Rightarrow> 'g \<times> 'w"
  mateMultipointAvg :: "'g \<Rightarrow> 'g \<Rightarrow> int \<Rightarrow> real \<Rightarrow> real \<Rightarrow> 'w \<Rightarrow> 'g \<times> 'w"
  mateSinglepoint :: "'g \<Rightarrow> 'g \<Rightarrow> int \<Rightarrow> 'w \<Rightarrow> 'g \<times> 'w"
  genesis :: "'g \<Rightarrow> int \<Rightarrow> 'w \<Rightarrow> 'w"

record ('g, 'w) world =
  org_store :: "'g orgstore"
  next_org :: orgref
  spec_store :: "specref \<Rightarrow> Species"
  next_spec :: specref
  pop :: Population
  genomes :: 'w
  rand :: rng

text \<open>
  The variables of \<^verbatim>\<open>reproduce\<close> that are declared before the loop and keep their
  value from one pass to the next. (\<^verbatim>\<open>mom\<close>, \<^verbatim>\<open>dad\<close> and \<^verbatim>\<open>baby\<close> are assigned
  in every pass before they are read.)
\<close>

record 'g locals =
  champ_done :: bool
  new_genome :: 'g

subsection \<open>Creating organisms and species\<close>

text \<open>
  Modelled from the spec: \<^verbatim>\<open>NewOrganism\<close>, whose code is not in \<^verbatim>\<open>species.go\<close>. It
  creates an organism that wraps the genome with the given fitness and generation; the
  status flags are unset and the organism belongs to no species yet.
\<close>

definition NewOrganism :: "real \<Rightarrow> 'g \<Rightarrow> int \<Rightarrow> ('g, 'w) world \<Rightarrow> orgref \<times> ('g, 'w) world" where
  "NewOrganism fit g generation w =
     (next_org w,
      w\<lparr>org_store := (org_store w)(next_org w :=
             \<lparr>Fitness = fit, OriginalFitness = 0, OrgExpectedOffspring = 0, IsChampion = False,
              ToEliminate = False, SuperChampOffspring = 0, IsPopulationChampion = False,
              IsPopulationChampionChild = False, highestFitness = 0, mutationStructBaby = False,
              mateBaby = False, GNome = g, Generation = generation, SpeciesOf = None\<rparr>),
        next_org := next_org w + 1\<rparr>)"

definition createFirstSpecies :: "orgref \<Rightarrow> ('g, 'w) world \<Rightarrow> ('g, 'w) world" where
  "createFirstSpecies baby w =
     (let last = lastSpecies (pop w) + 1;
          new_species = next_spec w
      in w\<lparr>pop := (pop w)\<lparr>lastSpecies := last, species := species (pop w) @ [new_species]\<rparr>,
           spec_store := (spec_store w)(new_species := addOrganism (NewSpeciesNovel last True) baby),
           next_spec := next_spec w + 1,
           org_store := (org_store w)(baby := (org_store w baby)\<lparr>SpeciesOf := Some new_species\<rparr>)\<rparr>)"

subsection \<open>Assigning an offspring to a species\<close>

text \<open>
  The search loop over \<^verbatim>\<open>pop.species\<close>: the first species that has organisms and whose
  first organism is at a compatibility distance below the threshold from the baby.
\<close>

fun find_species :: "('g, 'w) genome_ops \<Rightarrow> Neat \<Rightarrow> orgref \<Rightarrow> ('g, 'w) world \<Rightarrow> specref list \<Rightarrow> specref option" where
  "find_species ops conf baby w [] = None"
| "find_species ops conf baby w (sp # sps) =
     (case Organisms (spec_store w sp) of
        [] \<Rightarrow> find_species ops conf baby w sps
      | compare_org # _ \<Rightarrow>
          (if compatibility ops (GNome (org_store w baby)) (GNome (org_store w compare_org)) (genomes w)
                < CompatThreshold conf
           then Some sp
           else find_species ops conf baby w sps))"

definition assign_species :: "('g, 'w) genome_ops \<Rightarrow> Neat \<Rightarrow> orgref \<Rightarrow> ('g, 'w) world \<Rightarrow> ('g, 'w) world" where
  "assign_species ops conf baby w =
     (if species (pop w) = [] then createFirstSpecies baby w
      else (case find_species ops conf baby w (species (pop w)) of
              Some sp \<Rightarrow>
                w\<lparr>spec_store := (spec_store w)(sp := addOrganism (spec_store w sp) baby),
                  org_store := (org_store w)(baby := (org_store w baby)\<lparr>SpeciesOf := Some sp\<rparr>)\<rparr>
            | None \<Rightarrow> createFirstSpecies baby w))"

text \<open>
  A species can take the baby when it has organisms and its first organism is at a
  distance below the threshold from the baby.
\<close>

definition compatible_with :: "('g, 'w) genome_ops \<Rightarrow> Neat \<Rightarrow> orgref \<Rightarrow> ('g, 'w) world \<Rightarrow> specref \<Rightarrow> bool" where
  "compatible_with ops conf baby w sp =
     (Organisms (spec_store w sp) \<noteq> []
      \<and> compatibility ops (GNome (org_store w baby))
            (GNome (org_store w (hd (Organisms (spec_store w sp))))) (genomes w) < CompatThreshold conf)"

subsection \<open>The pieces of the loop body\<close>

definition nth_ref :: "nat list \<Rightarrow> int \<Rightarrow> fault + nat" where
  "nth_ref xs i =
     (if 0 \<le> i \<and> i < int (length xs) then Inr (xs ! nat i)
      else Inl (RuntimePanic ''index out of range''))"

text \<open>
  The cascade of mutations applied to \<^verbatim>\<open>new_genome\<close> (it occurs twice in the code, in
  the same words). The result tells whether the mutation was structural.
\<close>

definition mutate_cascade ::
  "('g, 'w) genome_ops \<Rightarrow> Neat \<Rightarrow> int \<Rightarrow> 'g \<Rightarrow> 'w \<Rightarrow> rng \<Rightarrow> bool \<times> 'w \<times> rng" where
  "mutate_cascade ops conf generation ng gw g0 =
     (let (r1, g1) = rand_Float64 g0
      in if r1 < MutateAddNodeProb conf then (True, mutateAddNode ops ng gw, g1)
         else (let (r2, g2) = rand_Float64 g1
               in if r2 < MutateAddLinkProb conf
                  then (True, mutateAddLink ops ng (NewLinkTries conf) (genesis ops ng generation gw), g2)
                  else (False, mutateAllNonstructural ops ng conf gw, g2)))"

text \<open>
  The choice of a species to mate with: up to five draws, until the species drawn is
  another one than \<open>s\<close>.
\<close>

function pick_randspecies :: "specref list \<Rightarrow> specref \<Rightarrow> specref \<Rightarrow> nat \<Rightarrow> rng \<Rightarrow> fault + (specref \<times> rng)" where
  "pick_randspecies sorted_species s randspecies giveup g0 =
     (if randspecies = s \<and> giveup < 5
      then (let (x, g1) = StdGaussian g0;
                randmult = (if x / 4 > 1 then 1 else x / 4);
                randspeciesnum = \<lfloor>math_Floor (randmult * (real (length sorted_species) - 1) + 1 / 2)\<rfloor>
            in case nth_ref sorted_species randspeciesnum of
                 Inl e \<Rightarrow> Inl e
               | Inr rs \<Rightarrow> pick_randspecies sorted_species s rs (giveup + 1) g1)
      else Inr (randspecies, g0))"
  by pat_completeness auto
termination
  by (relation "measure (\<lambda>(sorted_species, s, randspecies, giveup, g0). 5 - giveup)") auto

declare pick_randspecies.simps [simp del]

text \<open>
  The comparison \<^verbatim>\<open>r < a / b\<close> of two \<^verbatim>\<open>float64\<close>. For \<open>b = 0\<close> the quotient is
  \<open>+\<infinity>\<close> when \<open>a > 0\<close>, so that the comparison holds, and \<open>-\<infinity>\<close> or NaN otherwise, so
  that it fails.
\<close>

definition float_less_div :: "real \<Rightarrow> real \<Rightarrow> real \<Rightarrow> bool" where
  "float_less_div r a b = (if b = 0 then a > 0 else r < a / b)"

text \<open>
  The crossover, in two steps. First the choice of the operator and of its arguments;
  a call is written with its receiver first. Then the call itself and what the code does
  with its result.
\<close>

datatype 'g mate_call =
    CallMultipoint 'g 'g int real real
  | CallMultipointAvg 'g 'g int real real
  | CallSinglepoint 'g 'g int

definition choose_mate_call ::
  "Neat \<Rightarrow> 'g \<Rightarrow> 'g Organism \<Rightarrow> 'g Organism \<Rightarrow> int \<Rightarrow> rng \<Rightarrow> 'g mate_call \<times> rng" where
  "choose_mate_call conf ng mom dad cnt g0 =
     (let (r1, g1) = rand_Float64 g0
      in if r1 < MateMultipointProb conf
         then (CallMultipoint ng (GNome dad) cnt (OriginalFitness mom) (OriginalFitness dad), g1)
         else (let (r2, g2) = rand_Float64 g1
               in if float_less_div r2 (MateMultipointAvgProb conf)
                       (MateMultipointAvgProb conf + MateSinglepointProb conf)
                  then (CallMultipointAvg ng (GNome dad) cnt (OriginalFitness mom) (OriginalFitness dad), g2)
                  else (CallSinglepoint (GNome mom) (GNome dad) cnt, g2)))"

definition run_mate_call :: "('g, 'w) genome_ops \<Rightarrow> 'g mate_call \<Rightarrow> 'g \<Rightarrow> 'w \<Rightarrow> 'g \<times> 'w" where
  "run_mate_call ops call ng gw =
     (case call of
        CallMultipoint recv other cnt f1 f2 \<Rightarrow> (ng, snd (mateMultipoint ops recv other cnt f1 f2 gw))
      | CallMultipointAvg recv other cnt f1 f2 \<Rightarrow> (ng, snd (mateMultipointAvg ops recv other cnt f1 f2 gw))
      | CallSinglepoint recv other cnt \<Rightarrow> mateSinglepoint ops recv other cnt gw)"

subsection \<open>The four branches\<close>

definition superchamp_branch ::
  "('g, 'w) genome_ops \<Rightarrow> Neat \<Rightarrow> int \<Rightarrow> orgref \<Rightarrow> int \<Rightarrow> 'g locals \<Rightarrow> ('g, 'w) world
     \<Rightarrow> fault + ('g locals \<times> ('g, 'w) world)" where
  "superchamp_branch ops conf generation thechamp cnt loc w =
     (let mom = thechamp;
          (ng, gw1) = duplicate ops (GNome (org_store w mom)) cnt (genomes w);
          (mut_struct_baby, gw2, g1) =
             (if SuperChampOffspring (org_store w thechamp) > 1
              then (let (r, g1) = rand_Float64 (rand w)
                    in if r < 8 / 10 \<or> MutateAddLinkProb conf = 0
                       then (False, mutateLinkWeights ops ng (WeightMutPower conf) 1 gw1, g1)
                       else (True, mutateAddLink ops ng (NewLinkTries conf) (genesis ops ng generation gw1), g1))
              else (False, gw1, rand w));
          (baby, w1) = NewOrganism 0 ng generation (w\<lparr>genomes := gw2, rand := g1\<rparr>);
          w2 = (if SuperChampOffspring (org_store w1 thechamp) = 1 \<and> IsPopulationChampion (org_store w1 thechamp)
                then w1\<lparr>org_store := (org_store w1)(baby := (org_store w1 baby)
                          \<lparr>IsPopulationChampionChild := True,
                           highestFitness := OriginalFitness (org_store w1 mom)\<rparr>)\<rparr>
                else w1);
          w3 = w2\<lparr>org_store := (org_store w2)(thechamp := (org_store w2 thechamp)
                    \<lparr>SuperChampOffspring := SuperChampOffspring (org_store w2 thechamp) - 1\<rparr>)\<rparr>
      in Inr (loc\<lparr>new_genome := ng\<rparr>, w3))"

definition champ_clone_branch ::
  "('g, 'w) genome_ops \<Rightarrow> int \<Rightarrow> orgref \<Rightarrow> int \<Rightarrow> 'g locals \<Rightarrow> ('g, 'w) world
     \<Rightarrow> fault + ('g locals \<times> ('g, 'w) world)" where
  "champ_clone_branch ops generation thechamp cnt loc w =
     (let mom = thechamp;
          (ng, gw1) = duplicate ops (GNome (org_store w mom)) cnt (genomes w);
          (baby, w1) = NewOrganism 0 ng generation (w\<lparr>genomes := gw1\<rparr>)
      in Inr (loc\<lparr>new_genome := ng, champ_done := True\<rparr>, w1))"

definition mutate_only_branch ::
  "('g, 'w) genome_ops \<Rightarrow> Neat \<Rightarrow> int \<Rightarrow> specref \<Rightarrow> int \<Rightarrow> int \<Rightarrow> 'g locals \<Rightarrow> ('g, 'w) world
     \<Rightarrow> fault + ('g locals \<times> ('g, 'w) world)" where
  "mutate_only_branch ops conf generation s poolsize cnt loc w =
     (case rand_Int31n poolsize (rand w) of
        Inl e \<Rightarrow> Inl e
      | Inr (orgnum, g1) \<Rightarrow>
         (case nth_ref (Organisms (spec_store w s)) orgnum of
            Inl e \<Rightarrow> Inl e
          | Inr mom \<Rightarrow>
             (let (ng, gw1) = duplicate ops (GNome (org_store w mom)) cnt (genomes w);
                  (mut_struct_baby, gw2, g2) = mutate_cascade ops conf generation ng gw1 g1;
                  (baby, w1) = NewOrganism 0 ng generation (w\<lparr>genomes := gw2, rand := g2\<rparr>)
              in Inr (loc\<lparr>new_genome := ng\<rparr>, w1))))"

text \<open>The choice of the second parent.\<close>

definition choose_dad ::
  "Neat \<Rightarrow> specref list \<Rightarrow> specref \<Rightarrow> int \<Rightarrow> ('g, 'w) world \<Rightarrow> rng \<Rightarrow> fault + (orgref \<times> rng)" where
  "choose_dad conf sorted_species s poolsize w g0 =
     (let (r, g1) = rand_Float64 g0
      in if r > InterspeciesMateRate conf
         then (case rand_Int31n poolsize g1 of
                 Inl e \<Rightarrow> Inl e
               | Inr (orgnum, g2) \<Rightarrow>
                  (case nth_ref (Organisms (spec_store w s)) orgnum of
                     Inl e \<Rightarrow> Inl e
                   | Inr dad \<Rightarrow> Inr (dad, g2)))
         else (case pick_randspecies sorted_species s s 0 g1 of
                 Inl e \<Rightarrow> Inl e
               | Inr (randspecies, g2) \<Rightarrow>
                  (case nth_ref (Organisms (spec_store w randspecies)) 0 of
                     Inl e \<Rightarrow> Inl e
                   | Inr dad \<Rightarrow> Inr (dad, g2))))"

definition mating_branch ::
  "('g, 'w) genome_ops \<Rightarrow> Neat \<Rightarrow> int \<Rightarrow> specref list \<Rightarrow> specref \<Rightarrow> int \<Rightarrow> int \<Rightarrow> 'g locals
     \<Rightarrow> ('g, 'w) world \<Rightarrow> fault + ('g locals \<times> ('g, 'w) world)" where
  "mating_branch ops conf generation sorted_species s poolsize cnt loc w =
     (case rand_Int31n poolsize (rand w) of
        Inl e \<Rightarrow> Inl e
      | Inr (orgnum, g1) \<Rightarrow>
         (case nth_ref (Organisms (spec_store w s)) orgnum of
            Inl e \<Rightarrow> Inl e
          | Inr mom \<Rightarrow>
             (case choose_dad conf sorted_species s poolsize w g1 of
                Inl e \<Rightarrow> Inl e
              | Inr (dad, g2) \<Rightarrow>
                 (let (call, g3) = choose_mate_call conf (new_genome loc) (org_store w mom) (org_store w dad) cnt g2;
                      (ng, gw1) = run_mate_call ops call (new_genome loc) (genomes w);
                      mate_baby = True;
                      (r, g4) = rand_Float64 g3;
                      (mut_struct_baby, gw2, g5) =
                         (if r > MateOnlyProb conf
                              \<or> GenomeId ops (GNome (org_store w dad)) gw1 = GenomeId ops (GNome (org_store w mom)) gw1
                              \<or> compatibility ops (GNome (org_store w dad)) (GNome (org_store w mom)) gw1 = 0
                          then mutate_cascade ops conf generation ng gw1 g4
                          else (False, gw1, g4));
                      (baby, w1) = NewOrganism 0 ng generation (w\<lparr>genomes := gw2, rand := g5\<rparr>);
                      w2 = w1\<lparr>org_store := (org_store w1)(baby := (org_store w1 baby)
                                \<lparr>mutationStructBaby := mut_struct_baby, mateBaby := mate_baby\<rparr>)\<rparr>
                  in Inr (loc\<lparr>new_genome := ng\<rparr>, assign_species ops conf baby w2)))))"

subsection \<open>The loop and the function\<close>

text \<open>
  One pass of the loop. \<open>cnt\<close> is the loop counter \<^verbatim>\<open>count\<close>, and \<open>k\<close> is \<^verbatim>\<open>s.ExpectedOffspring\<close>: no statement of the body
  assigns this field, so it has the value it had when the loop was entered.
\<close>

definition reproduce_step ::
  "('g, 'w) genome_ops \<Rightarrow> Neat \<Rightarrow> int \<Rightarrow> specref list \<Rightarrow> specref \<Rightarrow> int \<Rightarrow> orgref \<Rightarrow> int \<Rightarrow> int
     \<Rightarrow> 'g locals \<times> ('g, 'w) world \<Rightarrow> fault + ('g locals \<times> ('g, 'w) world)" where
  "reproduce_step ops conf generation sorted_species s k thechamp poolsize cnt st =
     (let loc = fst st; w = snd st
      in if SuperChampOffspring (org_store w thechamp) > 0
         then superchamp_branch ops conf generation thechamp cnt loc w
         else if \<not> champ_done loc \<and> k > 5
         then champ_clone_branch ops generation thechamp cnt loc w
         else (let (r, g1) = rand_Float64 (rand w);
                   w0 = w\<lparr>rand := g1\<rparr>
               in if r < MutateOnlyProb conf \<or> poolsize = 1
                  then mutate_only_branch ops conf generation s poolsize cnt loc w0
                  else mating_branch ops conf generation sorted_species s poolsize cnt loc w0))"

function reproduce_loop ::
  "('g, 'w) genome_ops \<Rightarrow> Neat \<Rightarrow> int \<Rightarrow> specref list \<Rightarrow> specref \<Rightarrow> int \<Rightarrow> orgref \<Rightarrow> int \<Rightarrow> int
     \<Rightarrow> 'g locals \<times> ('g, 'w) world \<Rightarrow> fault + ('g locals \<times> ('g, 'w) world)" where
  "reproduce_loop ops conf generation sorted_species s k thechamp poolsize cnt st =
     (if cnt < k
      then (case reproduce_step ops conf generation sorted_species s k thechamp poolsize cnt st of
              Inl e \<Rightarrow> Inl e
            | Inr st' \<Rightarrow> reproduce_loop ops conf generation sorted_species s k thechamp poolsize (cnt + 1) st')
      else Inr st)"
  by pat_completeness auto
termination
  by (relation "measure (\<lambda>(ops, conf, generation, sorted_species, s, k, thechamp, poolsize, cnt, st). nat (k - cnt))") auto

declare reproduce_loop.simps [simp del]

text \<open>
  \<^verbatim>\<open>reproduce\<close>. The guard of the source, \<^verbatim>\<open>len(s.Organisms == 0)\<close>, is read as
  \<^verbatim>\<open>len(s.Organisms) == 0\<close>, and the final \<^verbatim>\<open>return true\<close> as success without
  error. The parameter \<^verbatim>\<open>sorted_species\<close>, which the body measures with \<^verbatim>\<open>len\<close> and
  indexes, is the list of the species in rank order. A returned error is
  \<open>Inl (ErrorValue _)\<close>, a panic \<open>Inl (RuntimePanic _)\<close>. The diagnostic print for an
  expected offspring above the population size changes no state and is left out.
\<close>

definition reproduce ::
  "('g, 'w) genome_ops \<Rightarrow> Neat \<Rightarrow> int \<Rightarrow> specref list \<Rightarrow> specref \<Rightarrow> ('g, 'w) world
     \<Rightarrow> fault + ('g, 'w) world" where
  "reproduce ops conf generation sorted_species s w =
     (if ExpectedOffspring (spec_store w s) > 0 \<and> length (Organisms (spec_store w s)) = 0
      then Inl (ErrorValue ''ATTEMPT TO REPRODUCE OUT OF EMPTY SPECIES'')
      else (let poolsize = int (length (Organisms (spec_store w s)))
            in case nth_ref (Organisms (spec_store w s)) 0 of
                 Inl e \<Rightarrow> Inl e
               | Inr thechamp \<Rightarrow>
                  (case reproduce_loop ops conf generation sorted_species s (ExpectedOffspring (spec_store w s))
                          thechamp poolsize 0 (\<lparr>champ_done = False, new_genome = nil_genome ops\<rparr>, w) of
                     Inl e \<Rightarrow> Inl e
                   | Inr st \<Rightarrow> Inr (snd st))))"

subsection \<open>What a crossover call carries\<close>

text \<open>
  The operator of a call and the two fitness values, when the call has them.
\<close>

datatype crossover = Multipoint | MultipointAvg | Singlepoint

fun call_operator :: "'g mate_call \<Rightarrow> crossover" where
  "call_operator (CallMultipoint recv other cnt f1 f2) = Multipoint"
| "call_operator (CallMultipointAvg recv other cnt f1 f2) = MultipointAvg"
| "call_operator (CallSinglepoint recv other cnt) = Singlepoint"

fun call_fitnesses :: "'g mate_call \<Rightarrow> (real \<times> real) option" where
  "call_fitnesses (CallMultipoint recv other cnt f1 f2) = Some (f1, f2)"
| "call_fitnesses (CallMultipointAvg recv other cnt f1 f2) = Some (f1, f2)"
| "call_fitnesses (CallSinglepoint recv other cnt) = None"

text \<open>
  The statement of the crossover step in the words of the specification: the operator
  named by the cascade of thresholds on two draws, and the application of a named
  operator to a receiver, the other genome, the offspring index and the two fitness
  values (which the singlepoint operator does not take).
\<close>

definition apply_crossover ::
  "('g, 'w) genome_ops \<Rightarrow> crossover \<Rightarrow> 'g \<Rightarrow> 'g \<Rightarrow> int \<Rightarrow> real \<Rightarrow> real \<Rightarrow> 'w \<Rightarrow> 'g \<times> 'w" where
  "apply_crossover ops op recv other cnt f1 f2 gw =
     (case op of
        Multipoint \<Rightarrow> mateMultipoint ops recv other cnt f1 f2 gw
      | MultipointAvg \<Rightarrow> mateMultipointAvg ops recv other cnt f1 f2 gw
      | Singlepoint \<Rightarrow> mateSinglepoint ops recv other cnt gw)"

definition crossover_choice :: "Neat \<Rightarrow> real \<Rightarrow> real \<Rightarrow> crossover" where
  "crossover_choice conf r1 r2 =
     (if r1 < MateMultipointProb conf then Multipoint
      else if float_less_div r2 (MateMultipointAvgProb conf)
               (MateMultipointAvgProb conf + MateSinglepointProb conf)
      then MultipointAvg else Singlepoint)"

section \<open>Concrete inputs\<close>

text \<open>The zero value of \<^verbatim>\<open>Organism\<close>, with genome handles taken as numbers.\<close>

definition zeroOrganism :: "nat Organism" where
  "zeroOrganism = \<lparr>Fitness = 0, OriginalFitness = 0, OrgExpectedOffspring = 0, IsChampion = False,
     ToEliminate = False, SuperChampOffspring = 0, IsPopulationChampion = False,
     IsPopulationChampionChild = False, highestFitness = 0, mutationStructBaby = False,
     mateBaby = False, GNome = 0, Generation = 0, SpeciesOf = None\<rparr>"

text \<open>Two organisms expecting 1.6 offspring each, in one species.\<close>

definition store_16 :: "nat orgstore" where
  "store_16 = (\<lambda>_. zeroOrganism\<lparr>OrgExpectedOffspring := 8 / 5\<rparr>)"

definition species_16 :: Species where
  "species_16 = (newSpecies 1)\<lparr>Organisms := [0, 1]\<rparr>"

text \<open>Three organisms of fitness 0, 5 and 5, in one species.\<close>

definition store_055 :: "nat orgstore" where
  "store_055 = (\<lambda>a. zeroOrganism\<lparr>Fitness := (if a = 0 then 0 else 5)\<rparr>)"

definition species_055 :: Species where
  "species_055 = (newSpecies 1)\<lparr>Organisms := [0, 1, 2]\<rparr>"

text \<open>A configuration, and species of seven, five and one organisms.\<close>

definition conf_plain :: Neat where
  "conf_plain = \<lparr>DropOffAge = 15, AgeSignificance = 1, SurvivalThresh = 2 / 5, WeightMutPower = 1,
     MutateOnlyProb = 1 / 4, MutateAddNodeProb = 0, MutateAddLinkProb = 0, InterspeciesMateRate = 0,
     MateMultipointProb = 3 / 5, MateMultipointAvgProb = 2 / 5, MateSinglepointProb = 0,
     MateOnlyProb = 1 / 5, NewLinkTries = 20, CompatThreshold = 3, PopSize = 10\<rparr>"

definition store_7 :: "nat orgstore" where
  "store_7 = (\<lambda>a. zeroOrganism\<lparr>Fitness := (if a = 6 then 2 else 1)\<rparr>)"

definition species_7 :: Species where
  "species_7 = (newSpecies 1)\<lparr>Organisms := [0, 1, 2, 3, 4, 5, 6], Age := 20, AgeOfLastImprovement := 19\<rparr>"

definition store_5 :: "nat orgstore" where
  "store_5 = (\<lambda>a. zeroOrganism\<lparr>Fitness := (if a = 0 then 6 else if a = 1 then 10 else if a = 2 then 2 else if a = 3 then 8 else 4)\<rparr>)"

definition species_5 :: Species where
  "species_5 = (newSpecies 1)\<lparr>Organisms := [0, 1, 2, 3, 4], Age := 20, AgeOfLastImprovement := 19\<rparr>"

definition store_100 :: "nat orgstore" where
  "store_100 = (\<lambda>a. zeroOrganism\<lparr>Fitness := 100\<rparr>)"

definition store_neg :: "nat orgstore" where
  "store_neg = (\<lambda>a. zeroOrganism\<lparr>Fitness := - 3\<rparr>)"

definition species_stale :: Species where
  "species_stale = (newSpecies 1)\<lparr>Organisms := [0], Age := 20, MaxFitnessEver := 1000\<rparr>"

text \<open>
  A genome collaborator over numbered genomes, in which every operation that creates a
  genome returns the next unused number and any two genomes are at distance 1;
  a generator whose draws are all 1/2 (floats), 0 (integers) and \<open>x\<close> (Gaussian);
  and a world of three species, the first holding the given organisms and the others
  organism 5, each expecting \<open>k\<close> offspring.
\<close>

definition ops_plain :: "(nat, nat) genome_ops" where
  "ops_plain = \<lparr>nil_genome = 0,
     duplicate = (\<lambda>g c w. (w, w + 1)),
     compatibility = (\<lambda>a b w. 1),
     GenomeId = (\<lambda>g w. int g),
     mutateAddNode = (\<lambda>g w. w),
     mutateAddLink = (\<lambda>g n w. w),
     mutateLinkWeights = (\<lambda>g p r w. w),
     mutateAllNonstructural = (\<lambda>g c w. w),
     mateMultipoint = (\<lambda>a b c f1 f2 w. (w, w + 1)),
     mateMultipointAvg = (\<lambda>a b c f1 f2 w. (w, w + 1)),
     mateSinglepoint = (\<lambda>a b c w. (w, w + 1)),
     genesis = (\<lambda>g n w. w)\<rparr>"

definition rng_const :: "real \<Rightarrow> rng" where
  "rng_const x = \<lparr>floats = (\<lambda>_. 1 / 2), ints = (\<lambda>_. 0), gaussians = (\<lambda>_. x), drawn = 0\<rparr>"

definition world_3 :: "nat list \<Rightarrow> int \<Rightarrow> real \<Rightarrow> (nat, nat) world" where
  "world_3 os k x = \<lparr>org_store = (\<lambda>a. zeroOrganism\<lparr>GNome := Suc a\<rparr>), next_org = 10,
     spec_store = (\<lambda>a. (newSpecies (int a))\<lparr>Organisms := (if a = 0 then os else [5]), ExpectedOffspring := k\<rparr>),
     next_spec = 3, pop = \<lparr>species = [0, 1, 2], lastSpecies = 2\<rparr>, genomes = 20, rand = rng_const x\<rparr>"

text \<open>A configuration that always selects singlepoint crossover.\<close>

definition conf_single :: Neat where
  "conf_single = conf_plain\<lparr>MateMultipointProb := 0, MateMultipointAvgProb := 0, MateSinglepointProb := 1\<rparr>"

text \<open>
  A genome collaborator that records the crossover calls made on it: its state is the
  list of these calls, in order. A world of three species on it, the first with the
  organisms 0 and 1 (genomes 1 and 2, original fitness 3 and 4), in which the draws
  select organism 0 as first and organism 1 as second parent. The local variables of
  \<^verbatim>\<open>reproduce\<close> on entry to the loop.
\<close>

definition ops_log :: "(nat, nat mate_call list) genome_ops" where
  "ops_log = \<lparr>nil_genome = 0,
     duplicate = (\<lambda>g c w. (g + 100, w)),
     compatibility = (\<lambda>a b w. 1),
     GenomeId = (\<lambda>g w. int g),
     mutateAddNode = (\<lambda>g w. w),
     mutateAddLink = (\<lambda>g n w. w),
     mutateLinkWeights = (\<lambda>g p r w. w),
     mutateAllNonstructural = (\<lambda>g c w. w),
     mateMultipoint = (\<lambda>a b c f1 f2 w. (50, w @ [CallMultipoint a b c f1 f2])),
     mateMultipointAvg = (\<lambda>a b c f1 f2 w. (51, w @ [CallMultipointAvg a b c f1 f2])),
     mateSinglepoint = (\<lambda>a b c w. (52, w @ [CallSinglepoint a b c])),
     genesis = (\<lambda>g n w. w)\<rparr>"

definition world_log :: "(nat, nat mate_call list) world" where
  "world_log = \<lparr>org_store = (\<lambda>a. zeroOrganism\<lparr>GNome := Suc a, OriginalFitness := real a + 3\<rparr>),
     next_org = 10,
     spec_store = (\<lambda>a. (newSpecies (int a))\<lparr>Organisms := (if a = 0 then [0, 1] else [5]), ExpectedOffspring := 1\<rparr>),
     next_spec = 3, pop = \<lparr>species = [0, 1, 2], lastSpecies = 2\<rparr>, genomes = [],
     rand = \<lparr>floats = (\<lambda>_. 1 / 2), ints = (\<lambda>n. if n = 1 then 0 else 1), gaussians = (\<lambda>_. 0), drawn = 0\<rparr>\<rparr>"

definition locals_0 :: "nat locals" where
  "locals_0 = \<lparr>champ_done = False, new_genome = 0\<rparr>"

section \<open>Removal undoes addition\<close>

text \<open>
  Claim C9. Adding an organism to a species and then removing it gives back the
  organism set the species had before; when the organism was not a member before, the
  removal succeeds and the species is exactly the one before the addition. Removing an
  organism that is not a member returns \<^verbatim>\<open>false\<close> with an error and leaves the
  species as it was.
\<close>

theorem removeOrganism_addOrganism:
  "set (Organisms (snd (removeOrganism (addOrganism s org) org))) = set (Organisms s)
   \<and> (org \<notin> set (Organisms s) \<longrightarrow> removeOrganism (addOrganism s org) org = ((True, None), s))
   \<and> (org \<notin> set (Organisms s) \<longrightarrow>
        fst (fst (removeOrganism s org)) = False \<and> snd (fst (removeOrganism s org)) \<noteq> None
        \<and> snd (removeOrganism s org) = s)"
proof (intro conjI impI)
  show "set (Organisms (snd (removeOrganism (addOrganism s org) org))) = set (Organisms s)"
  proof (cases "org \<in> set (Organisms s)")
    case True
    then have "length (filter (\<lambda>o'. o' \<noteq> org) (Organisms s)) < length (Organisms s)"
      by (rule length_filter_less) simp
    then show ?thesis using True
      by (auto simp: removeOrganism_def addOrganism_def Let_def)
  next
    case False
    then have "filter (\<lambda>o'. o' \<noteq> org) (Organisms s) = Organisms s" by (auto simp: filter_id_conv)
    then show ?thesis by (simp add: removeOrganism_def addOrganism_def Let_def)
  qed
next
  assume a: "org \<notin> set (Organisms s)"
  then have f: "filter (\<lambda>o'. o' \<noteq> org) (Organisms s) = Organisms s" by (auto simp: filter_id_conv)
  show "removeOrganism (addOrganism s org) org = ((True, None), s)"
    using f by (simp add: removeOrganism_def addOrganism_def Let_def)
  show "fst (fst (removeOrganism s org)) = False" using f by (simp add: removeOrganism_def Let_def)
  show "snd (fst (removeOrganism s org)) \<noteq> None" using f by (simp add: removeOrganism_def Let_def)
  show "snd (removeOrganism s org) = s" using f by (simp add: removeOrganism_def Let_def)
qed

theorem removeOrganism_addOrganism_witness:
  "(7::nat) \<notin> set (Organisms species_055)
   \<and> removeOrganism (addOrganism species_055 7) 7 = ((True, None), species_055)
   \<and> fst (fst (removeOrganism species_055 7)) = False
   \<and> snd (removeOrganism species_055 7) = species_055"
  using removeOrganism_addOrganism[of species_055 7]
  by (simp add: species_055_def)

section \<open>The champion of a species\<close>

lemma champion_loop_spec:
  "(if \<forall>o' \<in> set os. Fitness (h o') \<le> b then champion_loop h os b c = c
    else \<exists>i < length os. champion_loop h os b c = Some (os ! i) \<and> b < Fitness (h (os ! i))
          \<and> (\<forall>j < length os. Fitness (h (os ! j)) \<le> Fitness (h (os ! i)))
          \<and> (\<forall>j < i. Fitness (h (os ! j)) < Fitness (h (os ! i))))"
proof (induction os arbitrary: b c)
  case Nil
  then show ?case by simp
next
  case (Cons a os)
  show ?case
  proof (cases "Fitness (h a) > b")
    case True
    note IH = Cons.IH[of "Fitness (h a)" "Some a"]
    show ?thesis
    proof (cases "\<forall>o' \<in> set os. Fitness (h o') \<le> Fitness (h a)")
      case all: True
      then have r: "champion_loop h (a # os) b c = Some a" using IH True by simp
      have "\<forall>j < length (a # os). Fitness (h ((a # os) ! j)) \<le> Fitness (h a)"
        using all by (auto simp: nth_Cons split: nat.splits)
      then have "0 < length (a # os) \<and> champion_loop h (a # os) b c = Some ((a # os) ! 0) \<and> b < Fitness (h ((a # os) ! 0))
          \<and> (\<forall>j < length (a # os). Fitness (h ((a # os) ! j)) \<le> Fitness (h ((a # os) ! 0)))
          \<and> (\<forall>j < 0. Fitness (h ((a # os) ! j)) < Fitness (h ((a # os) ! 0)))"
        using r True by simp
      then have "\<exists>i < length (a # os). champion_loop h (a # os) b c = Some ((a # os) ! i) \<and> b < Fitness (h ((a # os) ! i))
          \<and> (\<forall>j < length (a # os). Fitness (h ((a # os) ! j)) \<le> Fitness (h ((a # os) ! i)))
          \<and> (\<forall>j < i. Fitness (h ((a # os) ! j)) < Fitness (h ((a # os) ! i)))"
        by blast
      then show ?thesis using True by auto
    next
      case nall: False
      from IH[unfolded if_not_P[OF nall]]
      obtain i where i: "i < length os" "champion_loop h os (Fitness (h a)) (Some a) = Some (os ! i)"
        "Fitness (h a) < Fitness (h (os ! i))"
        "\<forall>j < length os. Fitness (h (os ! j)) \<le> Fitness (h (os ! i))"
        "\<forall>j < i. Fitness (h (os ! j)) < Fitness (h (os ! i))"
        by blast
      have "Suc i < length (a # os) \<and> champion_loop h (a # os) b c = Some ((a # os) ! Suc i) \<and> b < Fitness (h ((a # os) ! Suc i))
          \<and> (\<forall>j < length (a # os). Fitness (h ((a # os) ! j)) \<le> Fitness (h ((a # os) ! Suc i)))
          \<and> (\<forall>j < Suc i. Fitness (h ((a # os) ! j)) < Fitness (h ((a # os) ! Suc i)))"
        using i True by (auto simp: nth_Cons split: nat.splits)
      then have "\<exists>i < length (a # os). champion_loop h (a # os) b c = Some ((a # os) ! i) \<and> b < Fitness (h ((a # os) ! i))
          \<and> (\<forall>j < length (a # os). Fitness (h ((a # os) ! j)) \<le> Fitness (h ((a # os) ! i)))
          \<and> (\<forall>j < i. Fitness (h ((a # os) ! j)) < Fitness (h ((a # os) ! i)))"
        by blast
      then show ?thesis using True by auto
    qed
  next
    case False
    note IH = Cons.IH[of b c]
    show ?thesis
    proof (cases "\<forall>o' \<in> set os. Fitness (h o') \<le> b")
      case True
      then show ?thesis using IH False by auto
    next
      case nall: False
      from IH[unfolded if_not_P[OF nall]]
      obtain i where i: "i < length os" "champion_loop h os b c = Some (os ! i)"
        "b < Fitness (h (os ! i))"
        "\<forall>j < length os. Fitness (h (os ! j)) \<le> Fitness (h (os ! i))"
        "\<forall>j < i. Fitness (h (os ! j)) < Fitness (h (os ! i))"
        by blast
      have "Suc i < length (a # os) \<and> champion_loop h (a # os) b c = Some ((a # os) ! Suc i) \<and> b < Fitness (h ((a # os) ! Suc i))
          \<and> (\<forall>j < length (a # os). Fitness (h ((a # os) ! j)) \<le> Fitness (h ((a # os) ! Suc i)))
          \<and> (\<forall>j < Suc i. Fitness (h ((a # os) ! j)) < Fitness (h ((a # os) ! Suc i)))"
        using i False by (auto simp: nth_Cons split: nat.splits)
      then have "\<exists>i < length (a # os). champion_loop h (a # os) b c = Some ((a # os) ! i) \<and> b < Fitness (h ((a # os) ! i))
          \<and> (\<forall>j < length (a # os). Fitness (h ((a # os) ! j)) \<le> Fitness (h ((a # os) ! i)))
          \<and> (\<forall>j < i. Fitness (h ((a # os) ! j)) < Fitness (h ((a # os) ! i)))"
        by blast
      then show ?thesis using nall False by auto
    qed
  qed
qed

text \<open>
  Claim C10. \<^verbatim>\<open>findChampion\<close> returns \<^verbatim>\<open>nil\<close> when no organism of the species has
  a fitness above 0.0; otherwise it returns the organism at the first position whose
  fitness is the greatest of the species (every earlier organism has a strictly
  smaller fitness, no organism a greater one).
\<close>

theorem findChampion_first_greatest:
  "((\<forall>o' \<in> set (Organisms s). Fitness (h o') \<le> 0) \<longrightarrow> findChampion s h = None)
   \<and> (\<not> (\<forall>o' \<in> set (Organisms s). Fitness (h o') \<le> 0) \<longrightarrow>
        (\<exists>i < length (Organisms s). findChampion s h = Some (Organisms s ! i)
           \<and> 0 < Fitness (h (Organisms s ! i))
           \<and> (\<forall>j < length (Organisms s). Fitness (h (Organisms s ! j)) \<le> Fitness (h (Organisms s ! i)))
           \<and> (\<forall>j < i. Fitness (h (Organisms s ! j)) < Fitness (h (Organisms s ! i)))))"
  using champion_loop_spec[of "Organisms s" h 0 None]
  by (simp add: findChampion_def split: if_splits)

theorem findChampion_first_greatest_witness:
  "\<not> (\<forall>o' \<in> set (Organisms species_055). Fitness (store_055 o') \<le> 0)
   \<and> findChampion species_055 store_055 = Some 1
   \<and> findChampion species_16 store_16 = None"
  using findChampion_first_greatest[of species_055 store_055]
    findChampion_first_greatest[of species_16 store_16]
  by (simp add: species_055_def store_055_def species_16_def store_16_def findChampion_def
      newSpecies_def zeroOrganism_def)

section \<open>Conservation of the expected offspring\<close>

lemma math_Mod_1_nonneg: "0 \<le> x \<Longrightarrow> math_Mod x 1 = x - of_int \<lfloor>x\<rfloor>"
  by (simp add: math_Mod_def truncate_real_def)

lemma countOffspring_step_props:
  assumes "0 \<le> x" "0 \<le> snd st"
  shows "fst st \<le> fst (countOffspring_step x st)"
    and "of_int (fst (countOffspring_step x st)) + snd (countOffspring_step x st) = of_int (fst st) + snd st + x"
    and "0 \<le> snd (countOffspring_step x st)"
    and "snd (countOffspring_step x st) < 1"
proof -
  let ?skim = "snd st + (x - of_int \<lfloor>x\<rfloor>)"
  have fl: "0 \<le> \<lfloor>x\<rfloor>" using assms by simp
  have sk: "0 \<le> ?skim" using assms by (simp add: add_nonneg_nonneg)
  have unf: "countOffspring_step x st =
     (if ?skim \<ge> 1 then (fst st + \<lfloor>x\<rfloor> + \<lfloor>?skim\<rfloor>, ?skim - of_int \<lfloor>?skim\<rfloor>) else (fst st + \<lfloor>x\<rfloor>, ?skim))"
    using assms by (simp add: countOffspring_step_def math_Floor_def math_Mod_1_nonneg Let_def)
  show "fst st \<le> fst (countOffspring_step x st)"
    using fl sk unfolding unf by (auto simp: add_nonneg_nonneg)
  show "of_int (fst (countOffspring_step x st)) + snd (countOffspring_step x st) = of_int (fst st) + snd st + x"
    unfolding unf by auto
  show "0 \<le> snd (countOffspring_step x st)"
    using sk unfolding unf by auto
  show "snd (countOffspring_step x st) < 1"
    unfolding unf by (auto simp: not_le) linarith
qed

lemma countOffspring_loop_props:
  assumes "\<forall>x \<in> set xs. 0 \<le> x" "0 \<le> snd st"
  shows "fst st \<le> fst (countOffspring_loop xs st)
       \<and> of_int (fst (countOffspring_loop xs st)) + snd (countOffspring_loop xs st) = of_int (fst st) + snd st + sum_list xs
       \<and> 0 \<le> snd (countOffspring_loop xs st)
       \<and> (snd st < 1 \<or> xs \<noteq> [] \<longrightarrow> snd (countOffspring_loop xs st) < 1)"
  using assms
proof (induction xs arbitrary: st)
  case Nil
  then show ?case by simp
next
  case (Cons x xs)
  have x: "0 \<le> x" using Cons.prems by simp
  note P = countOffspring_step_props[OF x Cons.prems(2)]
  have IH: "fst (countOffspring_step x st) \<le> fst (countOffspring_loop xs (countOffspring_step x st))
       \<and> of_int (fst (countOffspring_loop xs (countOffspring_step x st))) + snd (countOffspring_loop xs (countOffspring_step x st))
           = of_int (fst (countOffspring_step x st)) + snd (countOffspring_step x st) + sum_list xs
       \<and> 0 \<le> snd (countOffspring_loop xs (countOffspring_step x st))
       \<and> (snd (countOffspring_step x st) < 1 \<or> xs \<noteq> [] \<longrightarrow> snd (countOffspring_loop xs (countOffspring_step x st)) < 1)"
    using Cons.IH[of "countOffspring_step x st"] Cons.prems(1) P(3) by simp
  show ?case using IH P by simp
qed

lemma countOffspring_chain_props:
  assumes "\<forall>s \<in> set ss. \<forall>o' \<in> set (Organisms s). 0 \<le> OrgExpectedOffspring (h o')" "0 \<le> skim"
  shows "of_int (sum_list (map ExpectedOffspring (snd (countOffspring_chain ss h skim)))) + fst (countOffspring_chain ss h skim)
           = skim + sum_list (map (\<lambda>s. shares s h) ss)
       \<and> 0 \<le> fst (countOffspring_chain ss h skim)
       \<and> (skim < 1 \<longrightarrow> fst (countOffspring_chain ss h skim) < 1)
       \<and> (\<forall>s' \<in> set (snd (countOffspring_chain ss h skim)). 0 \<le> ExpectedOffspring s')"
  using assms
proof (induction ss arbitrary: skim)
  case Nil
  then show ?case by simp
next
  case (Cons s ss)
  let ?xs = "map (\<lambda>o'. OrgExpectedOffspring (h o')) (Organisms s)"
  have xs: "\<forall>x \<in> set ?xs. 0 \<le> x" using Cons.prems(1) by auto
  have sk: "0 \<le> snd (0::int, skim)" using Cons.prems(2) by simp
  note L = countOffspring_loop_props[OF xs sk]
  let ?r = "countOffspring s h skim"
  have r1: "fst ?r = snd (countOffspring_loop ?xs (0, skim))"
    and r2: "ExpectedOffspring (snd ?r) = fst (countOffspring_loop ?xs (0, skim))"
    by (simp_all add: countOffspring_def Let_def)
  have nn: "0 \<le> fst ?r" using L r1 by simp
  have rest: "\<forall>s \<in> set ss. \<forall>o' \<in> set (Organisms s). 0 \<le> OrgExpectedOffspring (h o')"
    using Cons.prems(1) by simp
  note IH = Cons.IH[OF rest nn]
  have lt: "skim < 1 \<Longrightarrow> fst ?r < 1" using L r1 by simp
  have eq: "of_int (ExpectedOffspring (snd ?r)) + fst ?r = skim + shares s h"
    using L r1 r2 by (simp add: shares_def)
  have pos: "0 \<le> ExpectedOffspring (snd ?r)" using L r2 by simp
  show ?case using IH lt eq pos by (simp add: Let_def)
qed

text \<open>
  Claim C3. When every organism expects a non-negative number of offspring and the
  incoming skim is non-negative, \<^verbatim>\<open>countOffspring\<close> sets the species' expected
  offspring to a non-negative integer, and that integer plus the returned skim is the
  incoming skim plus the sum of the organisms' shares. Chained over a list of species,
  starting from skim 0, the integer totals plus the last skim are the sum of all shares,
  the last skim lies in [0, 1), and so the totals differ from the sum of the shares by
  less than 1.
\<close>

theorem countOffspring_conserves:
  assumes "\<forall>o' \<in> set (Organisms s). 0 \<le> OrgExpectedOffspring (h o')" and "0 \<le> skim"
    and "\<forall>s' \<in> set ss. \<forall>o' \<in> set (Organisms s'). 0 \<le> OrgExpectedOffspring (h o')"
  shows "0 \<le> ExpectedOffspring (snd (countOffspring s h skim))
       \<and> of_int (ExpectedOffspring (snd (countOffspring s h skim))) + fst (countOffspring s h skim)
           = skim + shares s h
       \<and> 0 \<le> fst (countOffspring s h skim)
       \<and> of_int (sum_list (map ExpectedOffspring (snd (countOffspring_chain ss h 0)))) + fst (countOffspring_chain ss h 0)
           = sum_list (map (\<lambda>s'. shares s' h) ss)
       \<and> 0 \<le> fst (countOffspring_chain ss h 0) \<and> fst (countOffspring_chain ss h 0) < 1
       \<and> \<bar>sum_list (map (\<lambda>s'. shares s' h) ss) - of_int (sum_list (map ExpectedOffspring (snd (countOffspring_chain ss h 0))))\<bar> < 1"
proof -
  let ?xs = "map (\<lambda>o'. OrgExpectedOffspring (h o')) (Organisms s)"
  have xs: "\<forall>x \<in> set ?xs. 0 \<le> x" using assms(1) by auto
  have sk: "0 \<le> snd (0::int, skim)" using assms(2) by simp
  note L = countOffspring_loop_props[OF xs sk]
  have one: "0 \<le> ExpectedOffspring (snd (countOffspring s h skim))
       \<and> of_int (ExpectedOffspring (snd (countOffspring s h skim))) + fst (countOffspring s h skim)
           = skim + shares s h
       \<and> 0 \<le> fst (countOffspring s h skim)"
    using L by (simp add: countOffspring_def Let_def shares_def)
  have z: "(0::real) \<le> 0" by simp
  note C = countOffspring_chain_props[OF assms(3) z]
  have chain: "of_int (sum_list (map ExpectedOffspring (snd (countOffspring_chain ss h 0)))) + fst (countOffspring_chain ss h 0)
           = sum_list (map (\<lambda>s'. shares s' h) ss)
       \<and> 0 \<le> fst (countOffspring_chain ss h 0) \<and> fst (countOffspring_chain ss h 0) < 1"
    using C by simp
  then have dev: "\<bar>sum_list (map (\<lambda>s'. shares s' h) ss) - of_int (sum_list (map ExpectedOffspring (snd (countOffspring_chain ss h 0))))\<bar> < 1"
    by linarith
  show ?thesis using one chain dev by blast
qed

theorem countOffspring_conserves_witness:
  "ExpectedOffspring (snd (countOffspring species_16 store_16 0)) = 3
   \<and> fst (countOffspring species_16 store_16 0) = 1 / 5
   \<and> shares species_16 store_16 = 16 / 5
   \<and> fst (countOffspring_chain [species_16] store_16 0) < 1"
proof -
  have a: "\<forall>o' \<in> set (Organisms species_16). 0 \<le> OrgExpectedOffspring (store_16 o')"
    by (simp add: store_16_def zeroOrganism_def)
  have b: "\<forall>s' \<in> set [species_16]. \<forall>o' \<in> set (Organisms s'). 0 \<le> OrgExpectedOffspring (store_16 o')"
    using a by simp
  have c: "countOffspring species_16 store_16 0 = (1 / 5, species_16\<lparr>ExpectedOffspring := 3\<rparr>)"
    by (simp add: countOffspring_def countOffspring_step_def math_Floor_def math_Mod_def
        truncate_real_def species_16_def store_16_def zeroOrganism_def newSpecies_def Let_def)
  have d: "shares species_16 store_16 = 16 / 5"
    by (simp add: shares_def species_16_def store_16_def zeroOrganism_def)
  show ?thesis
    using countOffspring_conserves[OF a _ b, of 0] a b c d by simp
qed


section \<open>The sorting procedures meet the contract\<close>

lemma mset_insert_sorted: "mset (insert_sorted lt x ys) = add_mset x (mset ys)"
  by (induction ys) auto

lemma set_insert_sorted: "set (insert_sorted lt x ys) = insert x (set ys)"
  by (induction ys) auto

lemma sorted_insert_sorted:
  assumes "strict_weak_order lt" "sorted_wrt (\<lambda>a b. \<not> lt b a) ys"
  shows "sorted_wrt (\<lambda>a b. \<not> lt b a) (insert_sorted lt x ys)"
  using assms(2)
proof (induction ys)
  case Nil
  then show ?case by simp
next
  case (Cons y ys)
  have irr: "\<And>a. \<not> lt a a" and tr: "\<And>a b c. lt a b \<Longrightarrow> lt b c \<Longrightarrow> lt a c"
    and ntr: "\<And>a b c. \<not> lt a b \<Longrightarrow> \<not> lt b c \<Longrightarrow> \<not> lt a c"
    using assms(1) unfolding strict_weak_order_def by blast+
  show ?case
  proof (cases "lt x y")
    case True
    then have "\<not> lt y x" using irr tr by blast
    moreover have "\<forall>z \<in> set ys. \<not> lt z x"
    proof
      fix z assume "z \<in> set ys"
      then have "\<not> lt z y" using Cons.prems by simp
      moreover have "\<not> lt y x" using True irr tr by blast
      ultimately show "\<not> lt z x" using ntr by blast
    qed
    ultimately show ?thesis using True Cons.prems by simp
  next
    case False
    then show ?thesis using Cons by (auto simp: set_insert_sorted)
  qed
qed

lemma foldl_insert_sorted:
  assumes "strict_weak_order lt" "sorted_wrt (\<lambda>a b. \<not> lt b a) acc"
  shows "mset (foldl (\<lambda>acc x. insert_sorted lt x acc) acc xs) = mset acc + mset xs
       \<and> sorted_wrt (\<lambda>a b. \<not> lt b a) (foldl (\<lambda>acc x. insert_sorted lt x acc) acc xs)"
  using assms(2)
proof (induction xs arbitrary: acc)
  case Nil
  then show ?case by simp
next
  case (Cons x xs)
  have s: "sorted_wrt (\<lambda>a b. \<not> lt b a) (insert_sorted lt x acc)"
    using sorted_insert_sorted[OF assms(1) Cons.prems] .
  show ?case using Cons.IH[OF s] by (simp add: mset_insert_sorted)
qed

lemma insertionSort_sorts:
  assumes "strict_weak_order lt"
  shows "mset (insertionSort lt xs) = mset xs \<and> sorted_wrt (\<lambda>a b. \<not> lt b a) (insertionSort lt xs)"
  unfolding insertionSort_def using foldl_insert_sorted[OF assms, of "[]" xs] by simp

lemma insertionSort_contract: "sort_contract insertionSort"
  unfolding sort_contract_def using insertionSort_sorts by blast

lemma length_shell_swap: "length (shell_swap lt ys i) = length ys"
  by (simp add: shell_swap_def)

lemma mset_shell_swap: "i < length ys \<Longrightarrow> mset (shell_swap lt ys i) = mset ys"
  by (simp add: shell_swap_def mset_swap)

lemma foldl_shell_swap:
  "\<forall>i \<in> set is. i < length ys \<Longrightarrow>
     length (foldl (shell_swap lt) ys is) = length ys \<and> mset (foldl (shell_swap lt) ys is) = mset ys"
proof (induction "is" arbitrary: ys)
  case Nil
  then show ?case by simp
next
  case (Cons i "is")
  have "\<forall>j \<in> set is. j < length (shell_swap lt ys i)"
    using Cons.prems by (simp add: length_shell_swap)
  from Cons.IH[OF this] show ?case
    using Cons.prems by (simp add: length_shell_swap mset_shell_swap)
qed

lemma mset_shellPass: "mset (shellPass lt xs) = mset xs"
  unfolding shellPass_def using foldl_shell_swap[of "[6..<length xs]" xs lt] by simp

lemma shellInsertionSort_contract: "sort_contract shellInsertionSort"
  unfolding sort_contract_def shellInsertionSort_def
proof (intro allI impI)
  fix lt :: "orgref \<Rightarrow> orgref \<Rightarrow> bool" and xs
  assume "strict_weak_order lt"
  from insertionSort_sorts[OF this, of "shellPass lt xs"]
  show "mset (insertionSort lt (shellPass lt xs)) = mset xs
      \<and> sorted_wrt (\<lambda>a b. \<not> lt b a) (insertionSort lt (shellPass lt xs))"
    by (simp add: mset_shellPass)
qed

lemma ByFitness_strict_weak: "strict_weak_order (ByFitness_Less h)"
  unfolding strict_weak_order_def ByFitness_Less_def by auto

section \<open>What adjustFitness computes\<close>

lemma mark_set_upd:
  "mark_set A (h(a := (h a)\<lparr>ToEliminate := True\<rparr>)) = mark_set (insert a A) h"
  by (rule ext) (simp add: mark_set_def)

lemma mark_loop_nonneg:
  "0 \<le> c \<Longrightarrow> mark_loop c orgs h = Inr (mark_set (set (drop (nat c) orgs)) h)"
proof (induction c orgs h rule: mark_loop.induct)
  case (1 c orgs h)
  show ?case
  proof (cases "c < int (length orgs)")
    case True
    then have lt: "nat c < length orgs" using "1.prems" by linarith
    have n: "nat (c + 1) = Suc (nat c)" using "1.prems" by simp
    have d: "drop (nat c) orgs = orgs ! nat c # drop (Suc (nat c)) orgs"
      using lt by (simp add: Cons_nth_drop_Suc)
    have "mark_loop c orgs h = mark_loop (c + 1) orgs (h(orgs ! nat c := (h (orgs ! nat c))\<lparr>ToEliminate := True\<rparr>))"
      using True "1.prems" by (subst mark_loop.simps) simp
    also have "\<dots> = Inr (mark_set (set (drop (nat (c + 1)) orgs)) (h(orgs ! nat c := (h (orgs ! nat c))\<lparr>ToEliminate := True\<rparr>)))"
    proof -
      have a: "\<not> c < 0" and b: "0 \<le> c + 1" using "1.prems" by simp_all
      show ?thesis by (rule "1.IH"[OF True a b])
    qed
    also have "\<dots> = Inr (mark_set (set (drop (nat c) orgs)) h)"
    proof -
      have "set (drop (nat c) orgs) = insert (orgs ! nat c) (set (drop (Suc (nat c)) orgs))"
        by (subst d) simp
      then show ?thesis by (simp only: n mark_set_upd)
    qed
    finally show ?thesis .
  next
    case False
    then have "drop (nat c) orgs = []" by simp
    then have "mark_set (set (drop (nat c) orgs)) h = h" by (simp add: mark_set_def)
    then show ?thesis using False by (subst mark_loop.simps) simp
  qed
qed

lemma mark_loop_neg:
  "c < 0 \<Longrightarrow> mark_loop c orgs h = Inl (RuntimePanic ''index out of range'')"
  by (subst mark_loop.simps) simp

lemma adjust_loop_notin: "a \<notin> set as \<Longrightarrow> adjust_loop conf s as h a = h a"
  by (induction as arbitrary: h) auto

lemma adjust_loop_distinct:
  "distinct as \<Longrightarrow> a \<in> set as \<Longrightarrow> adjust_loop conf s as h a = adjust_organism conf s (h a)"
proof (induction as arbitrary: h)
  case Nil
  then show ?case by simp
next
  case (Cons b as)
  show ?case
  proof (cases "a = b")
    case True
    then have "a \<notin> set as" using Cons.prems by simp
    then show ?thesis using True by (simp add: adjust_loop_notin)
  next
    case False
    then show ?thesis using Cons by simp
  qed
qed

lemma adjust_organism_flags:
  "IsChampion (adjust_organism conf s org) = IsChampion org"
  "ToEliminate (adjust_organism conf s org) = ToEliminate org"
  by (simp_all add: adjust_organism_def Let_def)

lemma adjust_organism_nonneg: "0 \<le> Fitness (adjust_organism conf s org)"
  by (simp add: adjust_organism_def Let_def)

lemma adjust_loop_flags:
  "IsChampion (adjust_loop conf s as h a) = IsChampion (h a)
   \<and> ToEliminate (adjust_loop conf s as h a) = ToEliminate (h a)"
  by (induction as arbitrary: h) (auto simp: adjust_organism_flags)

lemma adjust_loop_nonneg:
  "a \<in> set as \<Longrightarrow> 0 \<le> Fitness (adjust_loop conf s as h a)"
proof (induction as arbitrary: h)
  case Nil
  then show ?case by simp
next
  case (Cons b as)
  show ?case
  proof (cases "a \<in> set as")
    case True
    then show ?thesis using Cons.IH by simp
  next
    case False
    then have "a = b" using Cons.prems by simp
    then show ?thesis using False by (simp add: adjust_loop_notin adjust_organism_nonneg)
  qed
qed

lemma adjustFitness_Inr:
  assumes "adjustFitness srt conf s h = Inr (s', h')"
  shows "Organisms s' = sorted_orgs srt conf s h"
    and "Organisms s' \<noteq> []"
    and "0 \<le> num_parents conf (length (Organisms s'))"
    and "h' = mark_set (set (drop (nat (num_parents conf (length (Organisms s')))) (Organisms s')))
               ((adjusted_store conf s h)(Organisms s' ! 0 := (adjusted_store conf s h (Organisms s' ! 0))\<lparr>IsChampion := True\<rparr>))"
proof -
  let ?h1 = "adjusted_store conf s h"
  let ?orgs = "sorted_orgs srt conf s h"
  let ?np = "num_parents conf (length ?orgs)"
  let ?h2 = "?h1(?orgs ! 0 := (?h1 (?orgs ! 0))\<lparr>IsChampion := True\<rparr>)"
  let ?s1 = "s\<lparr>Organisms := ?orgs\<rparr>"
  define s2 where "s2 = (if OriginalFitness (?h1 (?orgs ! 0)) > MaxFitnessEver ?s1
              then ?s1\<lparr>AgeOfLastImprovement := Age ?s1, MaxFitnessEver := OriginalFitness (?h1 (?orgs ! 0))\<rparr>
              else ?s1)"
  have os2: "Organisms s2 = ?orgs" by (simp add: s2_def)
  have unf: "adjustFitness srt conf s h =
     (if ?orgs = [] then Inl (RuntimePanic ''index out of range'')
      else case mark_loop ?np ?orgs ?h2 of Inl e \<Rightarrow> Inl e | Inr h3 \<Rightarrow> Inr (s2, h3))"
    unfolding adjustFitness_def Let_def adjusted_store_def[symmetric] sorted_orgs_def[symmetric] s2_def
    by (cases "OriginalFitness (?h1 (?orgs ! 0)) > MaxFitnessEver ?s1") (simp_all cong: sum.case_cong)
  have ne: "?orgs \<noteq> []" using assms unfolding unf by (auto split: if_splits)
  have s2: "Organisms s2 = ?orgs"
    "(case mark_loop ?np ?orgs ?h2 of Inl e \<Rightarrow> Inl e | Inr h3 \<Rightarrow> Inr (s2, h3)) = Inr (s', h')"
    using assms ne os2 unfolding unf by simp_all
  have np: "0 \<le> ?np"
  proof (rule ccontr)
    assume "\<not> 0 \<le> ?np"
    then have "mark_loop ?np ?orgs ?h2 = Inl (RuntimePanic ''index out of range'')"
      by (intro mark_loop_neg) simp
    with s2(2) show False by simp
  qed
  have eq: "s' = s2" "h' = mark_set (set (drop (nat ?np) ?orgs)) ?h2"
    using s2(2) mark_loop_nonneg[OF np, of ?orgs ?h2] by simp_all
  show o: "Organisms s' = ?orgs" using eq s2 by simp
  show "Organisms s' \<noteq> []" using o ne by simp
  show "0 \<le> num_parents conf (length (Organisms s'))" using np o by simp
  show "h' = mark_set (set (drop (nat (num_parents conf (length (Organisms s')))) (Organisms s')))
               ((adjusted_store conf s h)(Organisms s' ! 0 := (adjusted_store conf s h (Organisms s' ! 0))\<lparr>IsChampion := True\<rparr>))"
    using eq o by simp
qed

lemma adjustFitness_Fitness:
  assumes "adjustFitness srt conf s h = Inr (s', h')"
  shows "Fitness (h' a) = Fitness (adjusted_store conf s h a)"
    and "OriginalFitness (h' a) = OriginalFitness (adjusted_store conf s h a)"
  by (simp_all add: adjustFitness_Inr(4)[OF assms] mark_set_def)

lemma adjustFitness_sorted:
  assumes "sort_contract srt" "adjustFitness srt conf s h = Inr (s', h')"
  shows "mset (Organisms s') = mset (Organisms s)"
    and "sorted_wrt (\<lambda>a b. Fitness (h' b) \<le> Fitness (h' a)) (Organisms s')"
proof -
  let ?h1 = "adjusted_store conf s h"
  have c: "mset (srt (ByFitness_Less ?h1) (Organisms s)) = mset (Organisms s)
      \<and> sorted_wrt (\<lambda>a b. \<not> ByFitness_Less ?h1 b a) (srt (ByFitness_Less ?h1) (Organisms s))"
    using assms(1) ByFitness_strict_weak[of ?h1] unfolding sort_contract_def by blast
  have o: "Organisms s' = srt (ByFitness_Less ?h1) (Organisms s)"
    using adjustFitness_Inr(1)[OF assms(2)] by (simp add: sorted_orgs_def)
  show "mset (Organisms s') = mset (Organisms s)" using c o by simp
  have "(\<lambda>a b. \<not> ByFitness_Less ?h1 b a) = (\<lambda>a b. Fitness (h' b) \<le> Fitness (h' a))"
    by (intro ext) (auto simp: ByFitness_Less_def adjustFitness_Fitness(1)[OF assms(2)])
  then show "sorted_wrt (\<lambda>a b. Fitness (h' b) \<le> Fitness (h' a)) (Organisms s')"
    using c o by simp
qed

lemma num_parents_floor: "num_parents conf n = \<lfloor>SurvivalThresh conf * real n + 1\<rfloor>"
  by (simp add: num_parents_def math_Floor_def)

lemma nth_in_drop_distinct:
  assumes "distinct xs" "i < length xs"
  shows "xs ! i \<in> set (drop n xs) \<longleftrightarrow> n \<le> i"
proof
  assume "xs ! i \<in> set (drop n xs)"
  then obtain k where k: "k < length (drop n xs)" "drop n xs ! k = xs ! i"
    by (auto simp: in_set_conv_nth)
  then have "xs ! (n + k) = xs ! i" "n + k < length xs" by auto
  then have "n + k = i" using assms by (simp add: nth_eq_iff_index_eq)
  then show "n \<le> i" by simp
next
  assume "n \<le> i"
  then have "i - n < length (drop n xs)" "drop n xs ! (i - n) = xs ! i" using assms by auto
  then show "xs ! i \<in> set (drop n xs)" by (metis nth_mem)
qed

lemma adjustFitness_flags:
  assumes f: "\<forall>a \<in> set (Organisms s). \<not> IsChampion (h a) \<and> \<not> ToEliminate (h a)"
    and r: "adjustFitness srt conf s h = Inr (s', h')"
    and a: "a \<in> set (Organisms s)"
  shows "IsChampion (h' a) \<longleftrightarrow> a = Organisms s' ! 0"
    and "ToEliminate (h' a) \<longleftrightarrow> a \<in> set (drop (nat (num_parents conf (length (Organisms s')))) (Organisms s'))"
proof -
  have fl: "\<not> IsChampion (adjusted_store conf s h a)" "\<not> ToEliminate (adjusted_store conf s h a)"
    using f a adjust_loop_flags[of conf s "Organisms s" h a] by (simp_all add: adjusted_store_def)
  show "IsChampion (h' a) \<longleftrightarrow> a = Organisms s' ! 0"
    using fl by (simp add: adjustFitness_Inr(4)[OF r] mark_set_def)
  show "ToEliminate (h' a) \<longleftrightarrow> a \<in> set (drop (nat (num_parents conf (length (Organisms s')))) (Organisms s'))"
    using fl by (auto simp: adjustFitness_Inr(4)[OF r] mark_set_def)
qed

lemma adjustFitness_member_fitness:
  assumes "distinct (Organisms s)" and "a \<in> set (Organisms s)"
    and "adjustFitness srt conf s h = Inr (s', h')"
  shows "Fitness (h' a) = Fitness (adjust_organism conf s (h a))"
    and "OriginalFitness (h' a) = OriginalFitness (adjust_organism conf s (h a))"
  using adjustFitness_Fitness[OF assms(3), of a] adjust_loop_distinct[OF assms(1,2), of conf s h]
  by (simp_all add: adjusted_store_def)

lemma adjustFitness_empty:
  assumes "sort_contract srt" "Organisms s = []"
  shows "adjustFitness srt conf s h = Inl (RuntimePanic ''index out of range'')"
proof -
  have "mset (srt (ByFitness_Less (adjust_loop conf s [] h)) []) = mset []"
    using assms(1) ByFitness_strict_weak unfolding sort_contract_def by blast
  then show ?thesis using assms(2) by (simp add: adjustFitness_def Let_def)
qed

lemmas eval_defs = adjustFitness_def adjust_organism_def age_debt_def num_parents_def math_Floor_def
  ByFitness_Less_def insertionSort_def shellInsertionSort_def shellPass_def shell_swap_def
  conf_plain_def newSpecies_def zeroOrganism_def Let_def mark_loop.simps

lemma run_5:
  "adjustFitness insertionSort conf_plain species_5 store_5
     = Inr (projr (adjustFitness insertionSort conf_plain species_5 store_5))"
  by (simp add: eval_defs species_5_def store_5_def)

lemma run_5_orgs:
  "Organisms (fst (projr (adjustFitness insertionSort conf_plain species_5 store_5))) = [1, 3, 0, 4, 2]"
  by (simp add: eval_defs species_5_def store_5_def)

lemma run_7:
  "adjustFitness shellInsertionSort conf_plain species_7 store_7
     = Inr (projr (adjustFitness shellInsertionSort conf_plain species_7 store_7))"
  by (simp add: eval_defs species_7_def store_7_def)

lemma run_stale:
  "adjustFitness insertionSort conf_plain species_stale store_100
     = Inr (projr (adjustFitness insertionSort conf_plain species_stale store_100))"
  "fst (projr (adjustFitness insertionSort conf_plain species_stale store_100)) = species_stale"
  by (simp_all add: eval_defs species_stale_def store_100_def)

lemma run_stale_again:
  "adjustFitness insertionSort conf_plain species_stale
      (snd (projr (adjustFitness insertionSort conf_plain species_stale store_100)))
     = Inr (projr (adjustFitness insertionSort conf_plain species_stale
      (snd (projr (adjustFitness insertionSort conf_plain species_stale store_100)))))"
  by (simp add: eval_defs species_stale_def store_100_def)

section \<open>Champion and elimination marks\<close>

lemma adjustFitness_marks:
  assumes c: "sort_contract srt" and d: "distinct (Organisms s)"
    and f: "\<forall>a \<in> set (Organisms s). \<not> IsChampion (h a) \<and> \<not> ToEliminate (h a)"
    and r: "adjustFitness srt conf s h = Inr (s', h')"
  shows "length (Organisms s') = length (Organisms s) \<and> 0 < length (Organisms s')
     \<and> (\<forall>i < length (Organisms s'). IsChampion (h' (Organisms s' ! i)) \<longleftrightarrow> i = 0)
     \<and> (\<forall>i < length (Organisms s'). ToEliminate (h' (Organisms s' ! i))
            \<longleftrightarrow> \<lfloor>SurvivalThresh conf * real (length (Organisms s')) + 1\<rfloor> \<le> int i)
     \<and> int (card {a \<in> set (Organisms s'). ToEliminate (h' a)})
          = max 0 (int (length (Organisms s')) - \<lfloor>SurvivalThresh conf * real (length (Organisms s')) + 1\<rfloor>)
     \<and> (\<forall>i < length (Organisms s'). \<forall>j < length (Organisms s').
            \<not> ToEliminate (h' (Organisms s' ! i)) \<and> ToEliminate (h' (Organisms s' ! j))
            \<longrightarrow> i < j \<and> Fitness (h' (Organisms s' ! j)) \<le> Fitness (h' (Organisms s' ! i)))"
proof -
  let ?os = "Organisms s'"
  let ?np = "num_parents conf (length ?os)"
  note S = adjustFitness_sorted[OF c r]
  have len: "length ?os = length (Organisms s)" using S(1) by (metis size_mset)
  have set_eq: "set ?os = set (Organisms s)" using S(1) by (metis set_mset_mset)
  have dist: "distinct ?os" using S(1) d by (metis distinct_count_atmost_1 mset_eq_imp_distinct_iff)
  have ne: "0 < length ?os" using adjustFitness_Inr(2)[OF r] by simp
  have np: "0 \<le> ?np" using adjustFitness_Inr(3)[OF r] .
  have mem: "\<And>i. i < length ?os \<Longrightarrow> ?os ! i \<in> set (Organisms s)"
    using set_eq nth_mem by blast
  have champ: "\<forall>i < length ?os. IsChampion (h' (?os ! i)) \<longleftrightarrow> i = 0"
  proof (intro allI impI)
    fix i assume i: "i < length ?os"
    have "IsChampion (h' (?os ! i)) \<longleftrightarrow> ?os ! i = ?os ! 0"
      using adjustFitness_flags(1)[OF f r mem[OF i]] .
    also have "\<dots> \<longleftrightarrow> i = 0" using dist i ne by (simp add: nth_eq_iff_index_eq)
    finally show "IsChampion (h' (?os ! i)) \<longleftrightarrow> i = 0" .
  qed
  have elim_nat: "\<And>i. i < length ?os \<Longrightarrow> ToEliminate (h' (?os ! i)) \<longleftrightarrow> nat ?np \<le> i"
    using adjustFitness_flags(2)[OF f r mem] nth_in_drop_distinct[OF dist] by simp
  have elim: "\<forall>i < length ?os. ToEliminate (h' (?os ! i)) \<longleftrightarrow> \<lfloor>SurvivalThresh conf * real (length ?os) + 1\<rfloor> \<le> int i"
    using elim_nat np by (auto simp: num_parents_floor[symmetric])
  have "{a \<in> set ?os. ToEliminate (h' a)} = set (drop (nat ?np) ?os)"
    using adjustFitness_flags(2)[OF f r] set_eq by (auto dest: in_set_dropD)
  then have "card {a \<in> set ?os. ToEliminate (h' a)} = length ?os - nat ?np"
    using dist by (simp add: distinct_card)
  then have card: "int (card {a \<in> set ?os. ToEliminate (h' a)})
          = max 0 (int (length ?os) - \<lfloor>SurvivalThresh conf * real (length ?os) + 1\<rfloor>)"
    using np by (simp add: num_parents_floor[symmetric] max_def)
  have tail: "\<forall>i < length ?os. \<forall>j < length ?os.
            \<not> ToEliminate (h' (?os ! i)) \<and> ToEliminate (h' (?os ! j))
            \<longrightarrow> i < j \<and> Fitness (h' (?os ! j)) \<le> Fitness (h' (?os ! i))"
  proof (intro allI impI)
    fix i j assume i: "i < length ?os" and j: "j < length ?os"
      and m: "\<not> ToEliminate (h' (?os ! i)) \<and> ToEliminate (h' (?os ! j))"
    have ij: "i < j" using m elim_nat[OF i] elim_nat[OF j] by simp
    show "i < j \<and> Fitness (h' (?os ! j)) \<le> Fitness (h' (?os ! i))"
      using ij S(2) j by (simp add: sorted_wrt_iff_nth_less)
  qed
  show ?thesis using len ne champ elim card tail by blast
qed

lemma adjustFitness_returns_iff:
  assumes "sort_contract srt"
  shows "(\<exists>s' h'. adjustFitness srt conf s h = Inr (s', h'))
     \<longleftrightarrow> Organisms s \<noteq> [] \<and> 0 \<le> \<lfloor>SurvivalThresh conf * real (length (Organisms s)) + 1\<rfloor>"
proof -
  let ?h1 = "adjust_loop conf s (Organisms s) h"
  let ?orgs = "srt (ByFitness_Less ?h1) (Organisms s)"
  have m: "mset ?orgs = mset (Organisms s)"
    using assms ByFitness_strict_weak[of ?h1] unfolding sort_contract_def by blast
  then have len: "length ?orgs = length (Organisms s)" by (metis size_mset)
  then have ne: "?orgs = [] \<longleftrightarrow> Organisms s = []" by (metis length_0_conv)
  show ?thesis
  proof
    assume "\<exists>s' h'. adjustFitness srt conf s h = Inr (s', h')"
    then obtain s' h' where r: "adjustFitness srt conf s h = Inr (s', h')" by blast
    have "Organisms s' = ?orgs" using adjustFitness_Inr(1)[OF r] by (simp add: sorted_orgs_def adjusted_store_def)
    then show "Organisms s \<noteq> [] \<and> 0 \<le> \<lfloor>SurvivalThresh conf * real (length (Organisms s)) + 1\<rfloor>"
      using adjustFitness_Inr(2,3)[OF r] ne len by (simp add: num_parents_floor)
  next
    assume a: "Organisms s \<noteq> [] \<and> 0 \<le> \<lfloor>SurvivalThresh conf * real (length (Organisms s)) + 1\<rfloor>"
    then have np: "0 \<le> num_parents conf (length ?orgs)" by (simp add: len num_parents_floor)
    have "?orgs \<noteq> []" using a ne by simp
    then show "\<exists>s' h'. adjustFitness srt conf s h = Inr (s', h')"
      using np by (simp add: adjustFitness_def Let_def mark_loop_nonneg)
  qed
qed

text \<open>
  Claim C5. Take a species whose organisms are pairwise different and carry no champion
  or elimination mark, of size \<open>n\<close>. \<^verbatim>\<open>adjustFitness\<close> returns exactly when
  \<open>n > 0\<close> and \<open>\<lfloor>survivalThresh \<times> n + 1\<rfloor> \<ge> 0\<close> (otherwise an index is out of range).
  When it returns, the species keeps its size; the organism at index 0 of the sorted list
  is the only one marked champion; an organism is marked for elimination exactly when
  its index is at least \<open>\<lfloor>survivalThresh \<times> n + 1\<rfloor>\<close>; the number of organisms so marked
  is \<open>max 0 (n - \<lfloor>survivalThresh \<times> n + 1\<rfloor>)\<close>; and every marked organism comes after,
  and has a fitness no greater than, every unmarked one.
\<close>

theorem adjustFitness_champion_and_eliminated:
  assumes c: "sort_contract srt" and d: "distinct (Organisms s)"
    and f: "\<forall>a \<in> set (Organisms s). \<not> IsChampion (h a) \<and> \<not> ToEliminate (h a)"
  shows "((\<exists>s' h'. adjustFitness srt conf s h = Inr (s', h'))
           \<longleftrightarrow> Organisms s \<noteq> [] \<and> 0 \<le> \<lfloor>SurvivalThresh conf * real (length (Organisms s)) + 1\<rfloor>)
     \<and> (\<forall>s' h'. adjustFitness srt conf s h = Inr (s', h') \<longrightarrow>
         length (Organisms s') = length (Organisms s) \<and> 0 < length (Organisms s')
       \<and> (\<forall>i < length (Organisms s'). IsChampion (h' (Organisms s' ! i)) \<longleftrightarrow> i = 0)
       \<and> (\<forall>i < length (Organisms s'). ToEliminate (h' (Organisms s' ! i))
              \<longleftrightarrow> \<lfloor>SurvivalThresh conf * real (length (Organisms s')) + 1\<rfloor> \<le> int i)
       \<and> int (card {a \<in> set (Organisms s'). ToEliminate (h' a)})
            = max 0 (int (length (Organisms s')) - \<lfloor>SurvivalThresh conf * real (length (Organisms s')) + 1\<rfloor>)
       \<and> (\<forall>i < length (Organisms s'). \<forall>j < length (Organisms s').
              \<not> ToEliminate (h' (Organisms s' ! i)) \<and> ToEliminate (h' (Organisms s' ! j))
              \<longrightarrow> i < j \<and> Fitness (h' (Organisms s' ! j)) \<le> Fitness (h' (Organisms s' ! i))))"
  using adjustFitness_returns_iff[OF c, of conf s h] adjustFitness_marks[OF c d f]
  by blast

theorem adjustFitness_champion_and_eliminated_witness:
  "Organisms (fst (projr (adjustFitness insertionSort conf_plain species_5 store_5))) = [1, 3, 0, 4, 2]
   \<and> IsChampion (snd (projr (adjustFitness insertionSort conf_plain species_5 store_5)) 1)
   \<and> \<not> IsChampion (snd (projr (adjustFitness insertionSort conf_plain species_5 store_5)) 3)
   \<and> \<not> ToEliminate (snd (projr (adjustFitness insertionSort conf_plain species_5 store_5)) 0)
   \<and> ToEliminate (snd (projr (adjustFitness insertionSort conf_plain species_5 store_5)) 4)
   \<and> ToEliminate (snd (projr (adjustFitness insertionSort conf_plain species_5 store_5)) 2)
   \<and> card {a \<in> set (Organisms (fst (projr (adjustFitness insertionSort conf_plain species_5 store_5)))).
             ToEliminate (snd (projr (adjustFitness insertionSort conf_plain species_5 store_5)) a)} = 2"
proof -
  let ?R = "adjustFitness insertionSort conf_plain species_5 store_5"
  have d: "distinct (Organisms species_5)" by (simp add: species_5_def)
  have f: "\<forall>a \<in> set (Organisms species_5). \<not> IsChampion (store_5 a) \<and> \<not> ToEliminate (store_5 a)"
    by (simp add: species_5_def store_5_def zeroOrganism_def)
  have r: "?R = Inr (fst (projr ?R), snd (projr ?R))" using run_5 by simp
  note T = adjustFitness_champion_and_eliminated[OF insertionSort_contract d f,
      THEN conjunct2, rule_format, OF r]
  have np: "\<lfloor>SurvivalThresh conf_plain * real (length [1::nat, 3, 0, 4, 2]) + 1\<rfloor> = 3"
    by (simp add: conf_plain_def)
  have ch: "\<And>i. i < 5 \<Longrightarrow> IsChampion (snd (projr ?R) ([1, 3, 0, 4, 2] ! i)) \<longleftrightarrow> i = 0"
    and el: "\<And>i. i < 5 \<Longrightarrow> ToEliminate (snd (projr ?R) ([1, 3, 0, 4, 2] ! i)) \<longleftrightarrow> 3 \<le> int i"
    using T unfolding run_5_orgs np by simp_all
  have c: "IsChampion (snd (projr ?R) 1) \<and> \<not> IsChampion (snd (projr ?R) 3)
     \<and> \<not> ToEliminate (snd (projr ?R) 0) \<and> ToEliminate (snd (projr ?R) 4) \<and> ToEliminate (snd (projr ?R) 2)"
    using ch[of 0] ch[of 1] el[of 2] el[of 3] el[of 4] by simp
  have "int (card {a \<in> set (Organisms (fst (projr ?R))). ToEliminate (snd (projr ?R) a)}) = 2"
    using T unfolding run_5_orgs np by simp
  then show ?thesis using c run_5_orgs by simp
qed

section \<open>The order after the sort\<close>

text \<open>
  Claim C6, as amended. After \<^verbatim>\<open>adjustFitness\<close> the organism list is a rearrangement
  of the list before, in descending order of the fitness after adjustment. (Nothing is
  said about the relative order of organisms of equal fitness.)
\<close>

theorem adjustFitness_sorted_descending:
  assumes "sort_contract srt" and "adjustFitness srt conf s h = Inr (s', h')"
  shows "mset (Organisms s') = mset (Organisms s)
     \<and> (\<forall>i j. i < j \<and> j < length (Organisms s')
           \<longrightarrow> Fitness (h' (Organisms s' ! j)) \<le> Fitness (h' (Organisms s' ! i)))"
  using adjustFitness_sorted[OF assms] by (simp add: sorted_wrt_iff_nth_less)

theorem adjustFitness_sorted_descending_witness:
  "Organisms (fst (projr (adjustFitness insertionSort conf_plain species_5 store_5))) = [1, 3, 0, 4, 2]
   \<and> mset (Organisms (fst (projr (adjustFitness insertionSort conf_plain species_5 store_5)))) = mset [0, 1, 2, 3, 4]
   \<and> Fitness (snd (projr (adjustFitness insertionSort conf_plain species_5 store_5)) 3)
       \<le> Fitness (snd (projr (adjustFitness insertionSort conf_plain species_5 store_5)) 1)"
proof -
  let ?R = "adjustFitness insertionSort conf_plain species_5 store_5"
  have r: "?R = Inr (fst (projr ?R), snd (projr ?R))" using run_5 by simp
  note T = adjustFitness_sorted_descending[OF insertionSort_contract r]
  have "Fitness (snd (projr ?R) ([1, 3, 0, 4, 2] ! 1)) \<le> Fitness (snd (projr ?R) ([1, 3, 0, 4, 2] ! 0))"
    using T[THEN conjunct2, rule_format, of 0 1] unfolding run_5_orgs by simp
  moreover have "mset (Organisms (fst (projr ?R))) = mset [0, 1, 2, 3, 4]"
    using T[THEN conjunct1] by (simp add: species_5_def newSpecies_def)
  ultimately show ?thesis using run_5_orgs by simp
qed

text \<open>
  Claim C6, as stated, fails: the sort need not be stable. With the sorting procedure
  that compares the elements six apart first, seven organisms of fitness
  1, 1, 1, 1, 1, 1, 2 at the addresses 0 to 6 end in the order 6, 1, 2, 3, 4, 5, 0:
  organism 0 stood before organism 1, has the same fitness, and stands behind it
  afterwards.
\<close>

theorem adjustFitness_not_stable:
  "sort_contract shellInsertionSort
   \<and> adjustFitness shellInsertionSort conf_plain species_7 store_7
       = Inr (projr (adjustFitness shellInsertionSort conf_plain species_7 store_7))
   \<and> Organisms species_7 = [0, 1, 2, 3, 4, 5, 6]
   \<and> Organisms (fst (projr (adjustFitness shellInsertionSort conf_plain species_7 store_7))) = [6, 1, 2, 3, 4, 5, 0]
   \<and> Fitness (snd (projr (adjustFitness shellInsertionSort conf_plain species_7 store_7)) 0)
       = Fitness (snd (projr (adjustFitness shellInsertionSort conf_plain species_7 store_7)) 1)
   \<and> \<not> stable_by_fitness (snd (projr (adjustFitness shellInsertionSort conf_plain species_7 store_7)))
         (Organisms species_7)
         (Organisms (fst (projr (adjustFitness shellInsertionSort conf_plain species_7 store_7))))"
proof -
  let ?R = "adjustFitness shellInsertionSort conf_plain species_7 store_7"
  have o: "Organisms (fst (projr ?R)) = [6, 1, 2, 3, 4, 5, 0]"
    by (simp add: eval_defs species_7_def store_7_def)
  have f: "map (\<lambda>a. Fitness (snd (projr ?R) a)) [0, 1, 2, 3, 4, 5, 6] = [1/7, 1/7, 1/7, 1/7, 1/7, 1/7, 2/7]"
    by (simp add: eval_defs species_7_def store_7_def)
  have i: "Organisms species_7 = [0, 1, 2, 3, 4, 5, 6]" by (simp add: species_7_def)
  have "\<not> stable_by_fitness (snd (projr ?R)) (Organisms species_7) (Organisms (fst (projr ?R)))"
    unfolding o i stable_by_fitness_def using f by simp
  then show ?thesis using shellInsertionSort_contract run_7 o i f by simp
qed

section \<open>The stagnation penalty\<close>

text \<open>
  Claim C7. Let \<open>d = (age - ageOfLastImprovement + 1) - dropOffAge\<close>. In every call
  of \<^verbatim>\<open>adjustFitness\<close> that returns, the fitness of each organism of the species is
  multiplied by 0.01 exactly when \<open>d \<ge> 1\<close> or \<open>d = 0\<close>, before the boost for young
  species, the clamp and the division by the size of the species; the fitness before the
  call is kept as the original fitness. The condition reads the current state only, so
  the penalty applies in each call in which it holds.
\<close>

theorem adjustFitness_stagnation_penalty:
  assumes "distinct (Organisms s)" and "a \<in> set (Organisms s)"
    and "adjustFitness srt conf s h = Inr (s', h')"
  shows "Fitness (h' a) =
           (let d = (Age s - AgeOfLastImprovement s + 1) - DropOffAge conf;
                f1 = (if d \<ge> 1 \<or> d = 0 then Fitness (h a) * (1 / 100) else Fitness (h a));
                f2 = (if Age s \<le> 10 then f1 * AgeSignificance conf else f1);
                f3 = (if f2 < 0 then 1 / 10000 else f2)
            in f3 / real (length (Organisms s)))
       \<and> OriginalFitness (h' a) = Fitness (h a)"
  unfolding adjustFitness_member_fitness[OF assms]
  by (simp add: adjust_organism_def age_debt_def Let_def)

theorem adjustFitness_stagnation_penalty_witness:
  "(Age species_stale - AgeOfLastImprovement species_stale + 1) - DropOffAge conf_plain = 6
   \<and> Fitness (store_100 0) = 100
   \<and> Fitness (snd (projr (adjustFitness insertionSort conf_plain species_stale store_100)) 0) = 1
   \<and> Fitness (snd (projr (adjustFitness insertionSort conf_plain
         (fst (projr (adjustFitness insertionSort conf_plain species_stale store_100)))
         (snd (projr (adjustFitness insertionSort conf_plain species_stale store_100))))) 0) = 1 / 100"
proof -
  let ?R1 = "adjustFitness insertionSort conf_plain species_stale store_100"
  let ?R2 = "adjustFitness insertionSort conf_plain species_stale (snd (projr ?R1))"
  have d: "distinct (Organisms species_stale)" and m: "0 \<in> set (Organisms species_stale)"
    by (simp_all add: species_stale_def)
  have r1: "?R1 = Inr (fst (projr ?R1), snd (projr ?R1))" using run_stale(1) by simp
  have r2: "?R2 = Inr (fst (projr ?R2), snd (projr ?R2))" using run_stale_again by simp
  have a: "(Age species_stale - AgeOfLastImprovement species_stale + 1) - DropOffAge conf_plain = 6"
    by (simp add: species_stale_def conf_plain_def newSpecies_def)
  have s: "Age species_stale = 20" "length (Organisms species_stale) = 1"
    by (simp_all add: species_stale_def)
  have f0: "Fitness (store_100 0) = 100" by (simp add: store_100_def zeroOrganism_def)
  have f1: "Fitness (snd (projr ?R1) 0) = 1"
    using adjustFitness_stagnation_penalty[OF d m r1] a s f0 by simp
  have f2: "Fitness (snd (projr ?R2) 0) = 1 / 100"
    using adjustFitness_stagnation_penalty[OF d m r2] a s f1 by simp
  show ?thesis using a f0 f1 f2 run_stale(2) by simp
qed

section \<open>The sign of the adjusted fitness\<close>

text \<open>
  Claim C8, as amended. After \<^verbatim>\<open>adjustFitness\<close> no organism of the species has a
  negative fitness: a fitness that is negative after the penalty and the boost is set to
  0.0001 before the sharing. The adjusted fitness is exactly zero if and only if the
  fitness after the penalty and the boost is exactly zero.
\<close>

theorem adjustFitness_fitness_nonnegative:
  assumes "distinct (Organisms s)" and "a \<in> set (Organisms s)"
    and "adjustFitness srt conf s h = Inr (s', h')"
  shows "(let f1 = (if age_debt conf s \<ge> 1 then Fitness (h a) * (1 / 100) else Fitness (h a));
              f2 = (if Age s \<le> 10 then f1 * AgeSignificance conf else f1)
          in 0 \<le> Fitness (h' a)
             \<and> (Fitness (h' a) = 0 \<longleftrightarrow> f2 = 0)
             \<and> (f2 < 0 \<longrightarrow> Fitness (h' a) = (1 / 10000) / real (length (Organisms s))))"
proof -
  define f2 where "f2 = (let f1 = (if age_debt conf s \<ge> 1 then Fitness (h a) * (1 / 100) else Fitness (h a))
                         in if Age s \<le> 10 then f1 * AgeSignificance conf else f1)"
  define f3 where "f3 = (if f2 < 0 then 1 / 10000 else f2)"
  have "Organisms s \<noteq> []" using assms(2) by auto
  then have n: "0 < real (length (Organisms s))" by simp
  have fit: "Fitness (h' a) = f3 / real (length (Organisms s))"
    unfolding adjustFitness_member_fitness[OF assms]
    by (simp add: adjust_organism_def Let_def f2_def f3_def)
  have f3: "0 \<le> f3" "f3 = 0 \<longleftrightarrow> f2 = 0" by (auto simp: f3_def)
  have "0 \<le> Fitness (h' a)" using fit f3(1) n by simp
  moreover have "Fitness (h' a) = 0 \<longleftrightarrow> f2 = 0" using fit f3(2) n by simp
  moreover have "f2 < 0 \<longrightarrow> Fitness (h' a) = (1 / 10000) / real (length (Organisms s))"
    using fit by (simp add: f3_def)
  ultimately show ?thesis by (simp add: f2_def Let_def)
qed

theorem adjustFitness_fitness_nonnegative_witness:
  "Fitness (store_neg 0) = - 3
   \<and> Fitness (snd (projr (adjustFitness insertionSort conf_plain species_stale store_neg)) 0) = 1 / 10000
   \<and> 0 \<le> Fitness (snd (projr (adjustFitness insertionSort conf_plain species_stale store_neg)) 0)"
proof -
  let ?R = "adjustFitness insertionSort conf_plain species_stale store_neg"
  have d: "distinct (Organisms species_stale)" and m: "0 \<in> set (Organisms species_stale)"
    by (simp_all add: species_stale_def)
  have e: "?R = Inr (projr ?R)" "Fitness (snd (projr ?R) 0) = 1 / 10000"
    by (simp_all add: eval_defs species_stale_def store_neg_def)
  then have r: "?R = Inr (fst (projr ?R), snd (projr ?R))" by simp
  show ?thesis
    using adjustFitness_fitness_nonnegative[OF d m r] e(2)
    by (simp add: store_neg_def zeroOrganism_def Let_def)
qed

text \<open>
  Claim C8, as stated, fails: an organism whose fitness is 0 keeps the fitness 0, since
  the clamp tests for a fitness below zero only.
\<close>

theorem adjustFitness_zero_fitness:
  "adjustFitness insertionSort conf_plain species_16 store_16
     = Inr (projr (adjustFitness insertionSort conf_plain species_16 store_16))
   \<and> 0 \<in> set (Organisms (fst (projr (adjustFitness insertionSort conf_plain species_16 store_16))))
   \<and> Fitness (snd (projr (adjustFitness insertionSort conf_plain species_16 store_16)) 0) = 0"
  by (simp add: eval_defs species_16_def store_16_def zeroOrganism_def)


section \<open>Reproduction\<close>

lemmas reproduce_eval = reproduce_def reproduce_loop.simps reproduce_step_def superchamp_branch_def
  champ_clone_branch_def mutate_only_branch_def mating_branch_def choose_dad_def
  pick_randspecies.simps choose_mate_call_def run_mate_call_def mutate_cascade_def
  assign_species_def createFirstSpecies_def NewOrganism_def nth_ref_def float_less_div_def
  rand_Float64_def rand_Int31n_def StdGaussian_def math_Floor_def addOrganism_def
  NewSpeciesNovel_def newSpecies_def zeroOrganism_def conf_plain_def
  ops_plain_def rng_const_def world_3_def Let_def

lemma next_org_createFirstSpecies [simp]: "next_org (createFirstSpecies baby w) = next_org w"
  by (simp add: createFirstSpecies_def Let_def)

lemma next_org_assign_species [simp]: "next_org (assign_species ops conf baby w) = next_org w"
  by (simp add: assign_species_def split: option.splits)

lemma NewOrganism_next_org:
  "NewOrganism fit g generation w = (baby, w') \<Longrightarrow> next_org w' = Suc (next_org w)"
  by (auto simp: NewOrganism_def)

lemma superchamp_branch_next_org:
  "superchamp_branch ops conf generation thechamp cnt loc w = Inr (loc', w') \<Longrightarrow> next_org w' = next_org w + 1"
  by (auto simp: superchamp_branch_def Let_def split: prod.splits if_splits dest: NewOrganism_next_org)

lemma champ_clone_branch_next_org:
  "champ_clone_branch ops generation thechamp cnt loc w = Inr (loc', w') \<Longrightarrow> next_org w' = next_org w + 1"
  by (auto simp: champ_clone_branch_def Let_def split: prod.splits dest: NewOrganism_next_org)

lemma mutate_only_branch_next_org:
  "mutate_only_branch ops conf generation s poolsize cnt loc w = Inr (loc', w') \<Longrightarrow> next_org w' = next_org w + 1"
  by (auto simp: mutate_only_branch_def Let_def split: prod.splits sum.splits dest: NewOrganism_next_org)

lemma mating_branch_next_org:
  "mating_branch ops conf generation sorted_species s poolsize cnt loc w = Inr (loc', w') \<Longrightarrow> next_org w' = next_org w + 1"
  by (auto simp: mating_branch_def Let_def split: prod.splits sum.splits dest: NewOrganism_next_org)

lemma reproduce_step_next_org:
  "reproduce_step ops conf generation sorted_species s k thechamp poolsize cnt st = Inr st'
     \<Longrightarrow> next_org (snd st') = next_org (snd st) + 1"
  by (cases st') (auto simp: reproduce_step_def Let_def split: prod.splits if_splits
      dest: superchamp_branch_next_org champ_clone_branch_next_org mutate_only_branch_next_org mating_branch_next_org)

lemma reproduce_loop_next_org:
  "reproduce_loop ops conf generation sorted_species s k thechamp poolsize cnt st = Inr st'
     \<Longrightarrow> int (next_org (snd st')) = int (next_org (snd st)) + max 0 (k - cnt)"
proof (induction ops conf generation sorted_species s k thechamp poolsize cnt st rule: reproduce_loop.induct)
  case (1 ops conf generation sorted_species s k thechamp poolsize cnt st)
  show ?case
  proof (cases "cnt < k")
    case True
    then obtain st1 where s1: "reproduce_step ops conf generation sorted_species s k thechamp poolsize cnt st = Inr st1"
      and l: "reproduce_loop ops conf generation sorted_species s k thechamp poolsize (cnt + 1) st1 = Inr st'"
      using "1.prems" by (subst (asm) reproduce_loop.simps) (auto split: sum.splits)
    have "int (next_org (snd st')) = int (next_org (snd st1)) + max 0 (k - (cnt + 1))"
      using "1.IH"[OF True s1 l] .
    then show ?thesis using reproduce_step_next_org[OF s1] True by simp
  next
    case False
    then have "st' = st" using "1.prems" by (subst (asm) reproduce_loop.simps) simp
    then show ?thesis using False by simp
  qed
qed

lemma reproduce_creates_k:
  "reproduce ops conf generation sorted_species s w = Inr w'
     \<Longrightarrow> int (next_org w') = int (next_org w) + max 0 (ExpectedOffspring (spec_store w s))"
  by (auto simp: reproduce_def Let_def split: if_splits sum.splits dest!: reproduce_loop_next_org)

text \<open>
  The assignment of an offspring, where the code performs it: the baby goes to the first
  species of the list that can take it, and founds a new species when there is none.
\<close>

lemma find_species_first:
  "find_species ops conf baby w sps =
     (if \<exists>sp \<in> set sps. compatible_with ops conf baby w sp
      then Some (hd (filter (compatible_with ops conf baby w) sps))
      else None)"
proof (induction sps)
  case Nil
  then show ?case by simp
next
  case (Cons sp sps)
  have step: "find_species ops conf baby w (sp # sps) =
      (if compatible_with ops conf baby w sp then Some sp else find_species ops conf baby w sps)"
    by (cases "Organisms (spec_store w sp)") (simp_all add: compatible_with_def)
  show ?case unfolding step using Cons.IH by simp
qed

lemma assign_species_found:
  assumes "find_species ops conf baby w (species (pop w)) = Some sp"
  shows "pop (assign_species ops conf baby w) = pop w
     \<and> Organisms (spec_store (assign_species ops conf baby w) sp) = Organisms (spec_store w sp) @ [baby]
     \<and> (\<forall>sp'. sp' \<noteq> sp \<longrightarrow> spec_store (assign_species ops conf baby w) sp' = spec_store w sp')
     \<and> SpeciesOf (org_store (assign_species ops conf baby w) baby) = Some sp"
proof -
  have "species (pop w) \<noteq> []" using assms by auto
  then show ?thesis using assms by (simp add: assign_species_def addOrganism_def)
qed

lemma assign_species_new:
  assumes "find_species ops conf baby w (species (pop w)) = None"
  shows "species (pop (assign_species ops conf baby w)) = species (pop w) @ [next_spec w]
     \<and> Organisms (spec_store (assign_species ops conf baby w) (next_spec w)) = [baby]
     \<and> IsNovel (spec_store (assign_species ops conf baby w) (next_spec w))
     \<and> SpeciesId (spec_store (assign_species ops conf baby w) (next_spec w)) = lastSpecies (pop w) + 1
     \<and> (\<forall>sp'. sp' \<noteq> next_spec w \<longrightarrow> spec_store (assign_species ops conf baby w) sp' = spec_store w sp')
     \<and> SpeciesOf (org_store (assign_species ops conf baby w) baby) = Some (next_spec w)"
  using assms
  by (simp add: assign_species_def createFirstSpecies_def addOrganism_def NewSpeciesNovel_def
      newSpecies_def Let_def)

text \<open>
  A pass of the loop through the superchampion, the champion or the mutation-only branch
  creates the offspring and leaves it outside every species: the species and the
  population are as before.
\<close>

lemma NewOrganism_frame:
  "NewOrganism fit g generation w = (baby, w') \<Longrightarrow>
     baby = next_org w \<and> pop w' = pop w \<and> spec_store w' = spec_store w
     \<and> SpeciesOf (org_store w' baby) = None \<and> next_org w' = Suc (next_org w)"
  by (auto simp: NewOrganism_def)

lemma superchamp_branch_unassigned:
  "superchamp_branch ops conf generation thechamp cnt loc w = Inr (loc', w') \<Longrightarrow>
     pop w' = pop w \<and> spec_store w' = spec_store w \<and> SpeciesOf (org_store w' (next_org w)) = None"
  by (auto simp: superchamp_branch_def Let_def split: prod.splits if_splits dest!: NewOrganism_frame)

lemma champ_clone_branch_unassigned:
  "champ_clone_branch ops generation thechamp cnt loc w = Inr (loc', w') \<Longrightarrow>
     pop w' = pop w \<and> spec_store w' = spec_store w \<and> SpeciesOf (org_store w' (next_org w)) = None"
  by (auto simp: champ_clone_branch_def Let_def split: prod.splits dest!: NewOrganism_frame)

lemma mutate_only_branch_unassigned:
  "mutate_only_branch ops conf generation s poolsize cnt loc w = Inr (loc', w') \<Longrightarrow>
     pop w' = pop w \<and> spec_store w' = spec_store w \<and> SpeciesOf (org_store w' (next_org w)) = None"
  by (auto simp: mutate_only_branch_def Let_def split: prod.splits sum.splits dest!: NewOrganism_frame)

lemma reproduce_step_unassigned:
  assumes "reproduce_step ops conf generation sorted_species s k thechamp poolsize cnt (loc, w) = Inr (loc', w')"
    and "SuperChampOffspring (org_store w thechamp) > 0 \<or> (\<not> champ_done loc \<and> k > 5)
         \<or> floats (rand w) (drawn (rand w)) < MutateOnlyProb conf \<or> poolsize = 1"
  shows "pop w' = pop w \<and> spec_store w' = spec_store w \<and> next_org w' = Suc (next_org w)
         \<and> SpeciesOf (org_store w' (next_org w)) = None"
proof -
  have n: "next_org w' = Suc (next_org w)"
    using reproduce_step_next_org[OF assms(1)] by simp
  consider (a) "SuperChampOffspring (org_store w thechamp) > 0"
    | (b) "\<not> SuperChampOffspring (org_store w thechamp) > 0" "\<not> champ_done loc \<and> k > 5"
    | (c) "\<not> SuperChampOffspring (org_store w thechamp) > 0" "\<not> (\<not> champ_done loc \<and> k > 5)"
          "floats (rand w) (drawn (rand w)) < MutateOnlyProb conf \<or> poolsize = 1"
    using assms(2) by blast
  then have "pop w' = pop w \<and> spec_store w' = spec_store w \<and> SpeciesOf (org_store w' (next_org w)) = None"
  proof cases
    case a
    then show ?thesis using assms(1) superchamp_branch_unassigned[of ops conf generation thechamp cnt loc w loc' w']
      by (simp add: reproduce_step_def)
  next
    case b
    then show ?thesis using assms(1) champ_clone_branch_unassigned[of ops generation thechamp cnt loc w loc' w']
      by (simp add: reproduce_step_def)
  next
    case c
    let ?w0 = "w\<lparr>rand := (rand w)\<lparr>drawn := drawn (rand w) + 1\<rparr>\<rparr>"
    have "mutate_only_branch ops conf generation s poolsize cnt loc ?w0 = Inr (loc', w')"
      using assms(1) c by (simp add: reproduce_step_def rand_Float64_def Let_def split: if_splits)
    from mutate_only_branch_unassigned[OF this] show ?thesis by simp
  qed
  then show ?thesis using n by simp
qed

text \<open>
  Claim C1. \<^verbatim>\<open>reproduce\<close> does create one organism per expected offspring
  (\<open>reproduce_creates_k\<close>), but it assigns to a species only the offspring of the mating
  branch: the assignment stands inside that branch (\<open>reproduce_step_unassigned\<close>). In a
  world of three species, a species of one organism that expects one offspring takes the
  mutation-only branch; the offspring (organism 10) is created, belongs to no species
  and no species is added. With two organisms in the species the mating branch is taken
  and the offspring is added to the first species of the list.
\<close>

theorem reproduce_offspring_unassigned:
  "(case reproduce ops_plain conf_plain 1 [0, 1, 2] 0 (world_3 [0] 1 0) of
      Inl e \<Rightarrow> False
    | Inr w \<Rightarrow> next_org w = 11 \<and> SpeciesOf (org_store w 10) = None
         \<and> species (pop w) = [0, 1, 2]
         \<and> map (\<lambda>a. Organisms (spec_store w a)) (species (pop w)) = [ [0], [5], [5] ])
   \<and> (case reproduce ops_plain conf_plain 1 [0, 1, 2] 0 (world_3 [0, 1] 1 0) of
      Inl e \<Rightarrow> False
    | Inr w \<Rightarrow> next_org w = 11 \<and> SpeciesOf (org_store w 10) = Some 0
         \<and> species (pop w) = [0, 1, 2]
         \<and> map (\<lambda>a. Organisms (spec_store w a)) (species (pop w)) = [ [0, 1, 10], [5], [5] ])"
  by (simp add: reproduce_eval)

text \<open>
  Claim C2. Three calls end in a run-time panic (an index out of range), not in a
  returned error: \<^verbatim>\<open>adjustFitness\<close> on a species without organisms;
  \<^verbatim>\<open>reproduce\<close> on a species without organisms that expects no offspring; and
  \<^verbatim>\<open>reproduce\<close> when the Gaussian draw for the species to mate with is -2 and
  three species are ranked, which gives the index -1.
\<close>

theorem operations_panic:
  "adjustFitness insertionSort conf_plain (newSpecies 1) store_16 = Inl (RuntimePanic ''index out of range'')
   \<and> reproduce ops_plain conf_plain 1 [0, 1, 2] 0 (world_3 [] 0 0) = Inl (RuntimePanic ''index out of range'')
   \<and> \<lfloor>math_Floor ((- 2) / 4 * (real (length [0::nat, 1, 2]) - 1) + 1 / 2)\<rfloor> = - 1
   \<and> reproduce ops_plain (conf_plain\<lparr>InterspeciesMateRate := 1\<rparr>) 1 [0, 1, 2] 0 (world_3 [0, 1] 1 (- 2))
       = Inl (RuntimePanic ''index out of range'')"
proof -
  have f: "\<lfloor>- 1 :: real\<rfloor> = - 1" by (rule floor_unique) simp_all
  show ?thesis by (simp add: reproduce_eval eval_defs f)
qed

section \<open>The choice of the crossover operator\<close>

text \<open>The mating branch in closed form.\<close>

lemma choose_dad_rand [simp]:
  "choose_dad conf sorted_species s poolsize (w\<lparr>rand := x\<rparr>) g = choose_dad conf sorted_species s poolsize w g"
  by (auto simp: choose_dad_def split: prod.splits sum.splits)

lemma GNome_createFirstSpecies [simp]:
  "GNome (org_store (createFirstSpecies baby w) a) = GNome (org_store w a)"
  "genomes (createFirstSpecies baby w) = genomes w"
  by (simp_all add: createFirstSpecies_def Let_def)

lemma GNome_assign_species [simp]:
  "GNome (org_store (assign_species ops conf baby w) a) = GNome (org_store w a)"
  "genomes (assign_species ops conf baby w) = genomes w"
  by (simp_all add: assign_species_def split: option.splits)

lemma choose_then_run:
  "run_mate_call ops (fst (choose_mate_call conf ng mom dad cnt g)) ng gw
     = (let op = crossover_choice conf (floats g (drawn g)) (floats g (drawn g + 1));
            res = apply_crossover ops op (if op = Singlepoint then GNome mom else ng) (GNome dad) cnt
                    (OriginalFitness mom) (OriginalFitness dad) gw
        in (if op = Singlepoint then fst res else ng, snd res))"
  "snd (choose_mate_call conf ng mom dad cnt g)
     = g\<lparr>drawn := drawn g + (if crossover_choice conf (floats g (drawn g)) (floats g (drawn g + 1)) = Multipoint
                                  then 1 else 2)\<rparr>"
  "call_operator (fst (choose_mate_call conf ng mom dad cnt g))
     = crossover_choice conf (floats g (drawn g)) (floats g (drawn g + 1))"
  by (simp_all add: choose_mate_call_def run_mate_call_def rand_Float64_def apply_crossover_def
      crossover_choice_def Let_def)

lemma mating_branch_result:
  assumes mb: "mating_branch ops conf generation sorted_species s poolsize cnt loc w = Inr (loc', w')"
  shows "\<exists>mom dad g2.
       0 < poolsize
     \<and> nth_ref (Organisms (spec_store w s)) (int (ints (rand w) (drawn (rand w)) mod nat poolsize)) = Inr mom
     \<and> choose_dad conf sorted_species s poolsize w ((rand w)\<lparr>drawn := drawn (rand w) + 1\<rparr>) = Inr (dad, g2)
     \<and> (let cg = choose_mate_call conf (new_genome loc) (org_store w mom) (org_store w dad) cnt g2;
             rr = run_mate_call ops (fst cg) (new_genome loc) (genomes w);
             g3 = snd cg;
             gate = (floats g3 (drawn g3) > MateOnlyProb conf
                     \<or> GenomeId ops (GNome (org_store w dad)) (snd rr) = GenomeId ops (GNome (org_store w mom)) (snd rr)
                     \<or> compatibility ops (GNome (org_store w dad)) (GNome (org_store w mom)) (snd rr) = 0)
         in new_genome loc' = fst rr
          \<and> GNome (org_store w' (next_org w)) = fst rr
          \<and> genomes w' =
              (if gate
               then fst (snd (mutate_cascade ops conf generation (fst rr) (snd rr) (g3\<lparr>drawn := drawn g3 + 1\<rparr>)))
               else snd rr))"
proof -
  obtain orgnum g1 where i: "rand_Int31n poolsize (rand w) = Inr (orgnum, g1)"
    using mb by (auto simp: mating_branch_def split: sum.splits)
  obtain mom where m: "nth_ref (Organisms (spec_store w s)) orgnum = Inr mom"
    using mb i by (auto simp: mating_branch_def split: sum.splits)
  obtain dad g2 where d: "choose_dad conf sorted_species s poolsize w g1 = Inr (dad, g2)"
    using mb i m by (auto simp: mating_branch_def split: sum.splits)
  have p: "0 < poolsize" and o: "orgnum = int (ints (rand w) (drawn (rand w)) mod nat poolsize)"
    and g1: "g1 = (rand w)\<lparr>drawn := drawn (rand w) + 1\<rparr>"
    using i by (auto simp: rand_Int31n_def split: if_splits)
  define cg where "cg = choose_mate_call conf (new_genome loc) (org_store w mom) (org_store w dad) cnt g2"
  define rr where "rr = run_mate_call ops (fst cg) (new_genome loc) (genomes w)"
  define gate where "gate = (floats (snd cg) (drawn (snd cg)) > MateOnlyProb conf
                     \<or> GenomeId ops (GNome (org_store w dad)) (snd rr) = GenomeId ops (GNome (org_store w mom)) (snd rr)
                     \<or> compatibility ops (GNome (org_store w dad)) (GNome (org_store w mom)) (snd rr) = 0)"
  let ?M = "mating_branch ops conf generation sorted_species s poolsize cnt loc w"
  have l0: "new_genome (fst (projr ?M)) = fst rr"
    by (simp add: mating_branch_def i m d Let_def split_beta cg_def rr_def)
  have gn0: "GNome (org_store (snd (projr ?M)) (next_org w)) = fst rr"
    by (simp add: mating_branch_def i m d Let_def split_beta NewOrganism_def cg_def rr_def)
  have ge0: "genomes (snd (projr ?M)) = (if gate then fst (snd (mutate_cascade ops conf generation (fst rr) (snd rr) ((snd cg)\<lparr>drawn := drawn (snd cg) + 1\<rparr>)))
               else snd rr)"
    by (simp add: mating_branch_def i m d Let_def split_beta NewOrganism_def rand_Float64_def
        cg_def rr_def gate_def)
  have l: "new_genome loc' = fst rr" and gn: "GNome (org_store w' (next_org w)) = fst rr"
    and ge': "genomes w' = (if gate then fst (snd (mutate_cascade ops conf generation (fst rr) (snd rr) ((snd cg)\<lparr>drawn := drawn (snd cg) + 1\<rparr>)))
               else snd rr)"
    using l0 gn0 ge0 unfolding mb by simp_all
  show ?thesis
    apply (rule exI[of _ mom], rule exI[of _ dad], rule exI[of _ g2])
    using p m d l gn ge' unfolding o g1 Let_def cg_def rr_def gate_def
    by simp
qed

lemma float_less_div_nonzero: "b \<noteq> 0 \<Longrightarrow> float_less_div r a b = (r < a / b)"
  by (simp add: float_less_div_def)

lemma mating_pass_closed_form:
  assumes step: "reproduce_step ops conf generation sorted_species s k thechamp poolsize cnt (loc, w) = Inr (loc', w')"
    and nosuper: "\<not> SuperChampOffspring (org_store w thechamp) > 0"
    and noclone: "champ_done loc \<or> \<not> k > 5"
    and nomut: "\<not> floats (rand w) (drawn (rand w)) < MutateOnlyProb conf" "poolsize \<noteq> 1"
  shows "\<exists>mom dad g2.
       nth_ref (Organisms (spec_store w s)) (int (ints (rand w) (drawn (rand w) + 1) mod nat poolsize)) = Inr mom
     \<and> choose_dad conf sorted_species s poolsize w ((rand w)\<lparr>drawn := drawn (rand w) + 2\<rparr>) = Inr (dad, g2)
     \<and> (let momO = org_store w mom; dadO = org_store w dad;
             op = crossover_choice conf (floats g2 (drawn g2)) (floats g2 (drawn g2 + 1));
             recv = (if op = Singlepoint then GNome momO else new_genome loc);
             res = apply_crossover ops op recv (GNome dadO) cnt (OriginalFitness momO) (OriginalFitness dadO) (genomes w);
             g3 = g2\<lparr>drawn := drawn g2 + (if op = Multipoint then 1 else 2)\<rparr>;
             gate = (floats g3 (drawn g3) > MateOnlyProb conf
                     \<or> GenomeId ops (GNome dadO) (snd res) = GenomeId ops (GNome momO) (snd res)
                     \<or> compatibility ops (GNome dadO) (GNome momO) (snd res) = 0)
         in new_genome loc' = (if op = Singlepoint then fst res else new_genome loc)
          \<and> GNome (org_store w' (next_org w)) = new_genome loc'
          \<and> genomes w' =
              (if gate
               then fst (snd (mutate_cascade ops conf generation (new_genome loc') (snd res)
                                 (g3\<lparr>drawn := drawn g3 + 1\<rparr>)))
               else snd res))"
proof -
  let ?w0 = "w\<lparr>rand := (rand w)\<lparr>drawn := drawn (rand w) + 1\<rparr>\<rparr>"
  have mb: "mating_branch ops conf generation sorted_species s poolsize cnt loc ?w0 = Inr (loc', w')"
    using step nosuper noclone nomut
    by (simp add: reproduce_step_def rand_Float64_def Let_def split: if_splits)
  from mating_branch_result[OF mb] obtain mom dad g2 where
    m: "nth_ref (Organisms (spec_store w s)) (int (ints (rand w) (drawn (rand w) + 1) mod nat poolsize)) = Inr mom"
    and d: "choose_dad conf sorted_species s poolsize w ((rand w)\<lparr>drawn := drawn (rand w) + 2\<rparr>) = Inr (dad, g2)"
    and rest: "(let cg = choose_mate_call conf (new_genome loc) (org_store w mom) (org_store w dad) cnt g2;
             rr = run_mate_call ops (fst cg) (new_genome loc) (genomes w);
             g3 = snd cg;
             gate = (floats g3 (drawn g3) > MateOnlyProb conf
                     \<or> GenomeId ops (GNome (org_store w dad)) (snd rr) = GenomeId ops (GNome (org_store w mom)) (snd rr)
                     \<or> compatibility ops (GNome (org_store w dad)) (GNome (org_store w mom)) (snd rr) = 0)
         in new_genome loc' = fst rr
          \<and> GNome (org_store w' (next_org w)) = fst rr
          \<and> genomes w' =
              (if gate
               then fst (snd (mutate_cascade ops conf generation (fst rr) (snd rr) (g3\<lparr>drawn := drawn g3 + 1\<rparr>)))
               else snd rr))"
    by auto
  show ?thesis
    apply (rule exI[of _ mom], rule exI[of _ dad], rule exI[of _ g2])
    using m d rest
    by (simp add: choose_then_run Let_def)
qed

lemmas log_eval = reproduce_def reproduce_loop.simps reproduce_step_def superchamp_branch_def
  champ_clone_branch_def mutate_only_branch_def mating_branch_def choose_dad_def
  pick_randspecies.simps choose_mate_call_def run_mate_call_def mutate_cascade_def
  assign_species_def createFirstSpecies_def NewOrganism_def nth_ref_def float_less_div_def
  rand_Float64_def rand_Int31n_def StdGaussian_def math_Floor_def addOrganism_def
  NewSpeciesNovel_def newSpecies_def zeroOrganism_def conf_plain_def conf_single_def
  ops_log_def world_log_def locals_0_def Let_def

lemma step_single:
  "reproduce_step ops_log conf_single 1 [0, 1, 2] 0 1 0 2 0 (locals_0, world_log)
     = Inr (projr (reproduce_step ops_log conf_single 1 [0, 1, 2] 0 1 0 2 0 (locals_0, world_log)))"
  by (simp add: log_eval)

text \<open>
  \<^verbatim>\<open>reproduce\<close> runs one pass of the loop for each expected offspring; for one
  expected offspring it is the first pass.
\<close>

lemma reproduce_one_pass:
  assumes "ExpectedOffspring (spec_store w s) = 1" and "Organisms (spec_store w s) = thechamp # rest"
  shows "reproduce ops conf generation sorted_species s w =
     (case reproduce_step ops conf generation sorted_species s 1 thechamp
             (int (length (Organisms (spec_store w s)))) 0
             (\<lparr>champ_done = False, new_genome = nil_genome ops\<rparr>, w) of
        Inl e \<Rightarrow> Inl e
      | Inr st \<Rightarrow> Inr (snd st))"
  using assms
  by (simp add: reproduce_def nth_ref_def Let_def reproduce_loop.simps split: sum.splits)

text \<open>
  Claim C4, as amended. Take a pass of the loop of \<^verbatim>\<open>reproduce\<close> that goes through
  the mating branch and returns, with \<open>mom\<close> and \<open>dad\<close> the two parents chosen and
  \<open>r1\<close>, \<open>r2\<close> the next two draws. Exactly one crossover operator is applied to the
  state of the genome collaborator in this pass. It is multipoint when
  \<open>r1 < mateMultipointProb\<close>; else multipoint-average when
  \<open>r2 < mateMultipointAvgProb / (mateMultipointAvgProb + mateSinglepointProb)\<close>; else
  singlepoint (one draw is made in the first case, two otherwise). The operator receives
  the genome of \<open>dad\<close> and the offspring index; the multipoint and multipoint-average
  operators receive the original fitness of both parents as well, the singlepoint
  operator does not. The singlepoint operator is applied to the genome of \<open>mom\<close>, and
  its result is the child genome, the genome of the organism created in the pass. What
  follows the crossover (the decision to mutate, the mutation) starts from the state the
  one operator left.
\<close>

theorem mating_pass_crossover:
  assumes "reproduce_step ops conf generation sorted_species s k thechamp poolsize cnt (loc, w) = Inr (loc', w')"
    and "\<not> SuperChampOffspring (org_store w thechamp) > 0"
    and "champ_done loc \<or> \<not> k > 5"
    and "\<not> floats (rand w) (drawn (rand w)) < MutateOnlyProb conf" and "poolsize \<noteq> 1"
  shows "\<exists>mom dad g2 recv.
       nth_ref (Organisms (spec_store w s)) (int (ints (rand w) (drawn (rand w) + 1) mod nat poolsize)) = Inr mom
     \<and> choose_dad conf sorted_species s poolsize w ((rand w)\<lparr>drawn := drawn (rand w) + 2\<rparr>) = Inr (dad, g2)
     \<and> (let momO = org_store w mom; dadO = org_store w dad;
             r1 = floats g2 (drawn g2);
             r2 = floats g2 (drawn g2 + 1);
             a = MateMultipointAvgProb conf;
             b = MateMultipointAvgProb conf + MateSinglepointProb conf;
             op = (if r1 < MateMultipointProb conf then Multipoint
                   else if float_less_div r2 a b then MultipointAvg
                   else Singlepoint);
             res = apply_crossover ops op recv (GNome dadO) cnt (OriginalFitness momO) (OriginalFitness dadO) (genomes w);
             g3 = g2\<lparr>drawn := drawn g2 + (if op = Multipoint then 1 else 2)\<rparr>;
             gate = (floats g3 (drawn g3) > MateOnlyProb conf
                     \<or> GenomeId ops (GNome dadO) (snd res) = GenomeId ops (GNome momO) (snd res)
                     \<or> compatibility ops (GNome dadO) (GNome momO) (snd res) = 0)
         in (b \<noteq> 0 \<longrightarrow> float_less_div r2 a b = (r2 < a / b))
          \<and> (op = Singlepoint \<longrightarrow> recv = GNome momO \<and> new_genome loc' = fst res)
          \<and> GNome (org_store w' (next_org w)) = new_genome loc'
          \<and> genomes w' =
              (if gate
               then fst (snd (mutate_cascade ops conf generation (new_genome loc') (snd res)
                                 (g3\<lparr>drawn := drawn g3 + 1\<rparr>)))
               else snd res))"
proof -
  from mating_pass_closed_form[OF assms] obtain mom dad g2 where
    m: "nth_ref (Organisms (spec_store w s)) (int (ints (rand w) (drawn (rand w) + 1) mod nat poolsize)) = Inr mom"
    and d: "choose_dad conf sorted_species s poolsize w ((rand w)\<lparr>drawn := drawn (rand w) + 2\<rparr>) = Inr (dad, g2)"
    and rest: "(let momO = org_store w mom; dadO = org_store w dad;
             op = crossover_choice conf (floats g2 (drawn g2)) (floats g2 (drawn g2 + 1));
             recv = (if op = Singlepoint then GNome momO else new_genome loc);
             res = apply_crossover ops op recv (GNome dadO) cnt (OriginalFitness momO) (OriginalFitness dadO) (genomes w);
             g3 = g2\<lparr>drawn := drawn g2 + (if op = Multipoint then 1 else 2)\<rparr>;
             gate = (floats g3 (drawn g3) > MateOnlyProb conf
                     \<or> GenomeId ops (GNome dadO) (snd res) = GenomeId ops (GNome momO) (snd res)
                     \<or> compatibility ops (GNome dadO) (GNome momO) (snd res) = 0)
         in new_genome loc' = (if op = Singlepoint then fst res else new_genome loc)
          \<and> GNome (org_store w' (next_org w)) = new_genome loc'
          \<and> genomes w' =
              (if gate
               then fst (snd (mutate_cascade ops conf generation (new_genome loc') (snd res)
                                 (g3\<lparr>drawn := drawn g3 + 1\<rparr>)))
               else snd res))"
    by auto
  let ?op = "crossover_choice conf (floats g2 (drawn g2)) (floats g2 (drawn g2 + 1))"
  let ?recv = "if ?op = Singlepoint then GNome (org_store w mom) else new_genome loc"
  show ?thesis
    apply (rule exI[of _ mom], rule exI[of _ dad], rule exI[of _ g2], rule exI[of _ ?recv])
    using m d rest
    unfolding Let_def crossover_choice_def
    by (simp add: float_less_div_nonzero)
qed

theorem mating_pass_crossover_witness:
  "reproduce_step ops_log conf_single 1 [0, 1, 2] 0 1 0 2 0 (locals_0, world_log)
     = Inr (projr (reproduce_step ops_log conf_single 1 [0, 1, 2] 0 1 0 2 0 (locals_0, world_log)))
   \<and> genomes (snd (projr (reproduce_step ops_log conf_single 1 [0, 1, 2] 0 1 0 2 0 (locals_0, world_log))))
       = [CallSinglepoint 1 2 0]
   \<and> mateSinglepoint ops_log 1 2 0 [] = (52, [CallSinglepoint 1 2 0])
   \<and> new_genome (fst (projr (reproduce_step ops_log conf_single 1 [0, 1, 2] 0 1 0 2 0 (locals_0, world_log)))) = 52
   \<and> GNome (org_store (snd (projr (reproduce_step ops_log conf_single 1 [0, 1, 2] 0 1 0 2 0 (locals_0, world_log)))) 10)
       = new_genome (fst (projr (reproduce_step ops_log conf_single 1 [0, 1, 2] 0 1 0 2 0 (locals_0, world_log))))
   \<and> (case reproduce ops_log conf_plain 1 [0, 1, 2] 0 world_log of
        Inl e \<Rightarrow> False
      | Inr w \<Rightarrow> map call_operator (genomes w) = [Multipoint]
           \<and> map call_fitnesses (genomes w) = [Some (3, 4)])
   \<and> (case reproduce ops_log (conf_plain\<lparr>MateMultipointProb := 1 / 4\<rparr>) 1 [0, 1, 2] 0 world_log of
        Inl e \<Rightarrow> False
      | Inr w \<Rightarrow> map call_operator (genomes w) = [MultipointAvg]
           \<and> map call_fitnesses (genomes w) = [Some (3, 4)])"
proof -
  let ?R = "reproduce_step ops_log conf_single 1 [0, 1, 2] 0 1 0 2 0 (locals_0, world_log)"
  have r: "?R = Inr (fst (projr ?R), snd (projr ?R))" using step_single by simp
  have h2: "\<not> SuperChampOffspring (org_store world_log 0) > 0"
    by (simp add: world_log_def zeroOrganism_def)
  have h3: "champ_done locals_0 \<or> \<not> (1::int) > 5" by simp
  have h4: "\<not> floats (rand world_log) (drawn (rand world_log)) < MutateOnlyProb conf_single"
    by (simp add: world_log_def conf_single_def conf_plain_def)
  have h5: "(2::int) \<noteq> 1" by simp
  have n: "next_org world_log = 10" by (simp add: world_log_def)
  have baby: "GNome (org_store (snd (projr ?R)) 10) = new_genome (fst (projr ?R))"
    using mating_pass_crossover[OF r h2 h3 h4 h5] unfolding n by (auto simp: Let_def)
  have e: "genomes (snd (projr ?R)) = [CallSinglepoint 1 2 0]" "new_genome (fst (projr ?R)) = 52"
    "mateSinglepoint ops_log 1 2 0 [] = (52, [CallSinglepoint 1 2 0])"
    by (simp_all add: log_eval)
  have m: "(case reproduce ops_log conf_plain 1 [0, 1, 2] 0 world_log of
        Inl e \<Rightarrow> False
      | Inr w \<Rightarrow> map call_operator (genomes w) = [Multipoint]
           \<and> map call_fitnesses (genomes w) = [Some (3, 4)])"
    by (simp add: log_eval)
  have a: "(case reproduce ops_log (conf_plain\<lparr>MateMultipointProb := 1 / 4\<rparr>) 1 [0, 1, 2] 0 world_log of
        Inl e \<Rightarrow> False
      | Inr w \<Rightarrow> map call_operator (genomes w) = [MultipointAvg]
           \<and> map call_fitnesses (genomes w) = [Some (3, 4)])"
    by (simp add: log_eval)
  show ?thesis using step_single baby e m a by simp
qed

text \<open>
  Claim C4, as stated, fails: the singlepoint operator does not receive the parents'
  original fitness. With thresholds 0, 0 and 1, \<^verbatim>\<open>reproduce\<close> makes one crossover
  call for its one offspring, \<^verbatim>\<open>mom.GNome.mateSinglepoint(dad.GNome, count)\<close> on the
  genomes 1 and 2 with index 0; the call carries no fitness, while the parents' original
  fitness is 3 and 4.
\<close>

theorem reproduce_singlepoint_no_fitness:
  "(case reproduce ops_log conf_single 1 [0, 1, 2] 0 world_log of
      Inl e \<Rightarrow> False
    | Inr w \<Rightarrow> genomes w = [CallSinglepoint 1 2 0] \<and> map call_fitnesses (genomes w) = [None])
   \<and> GNome (org_store world_log 0) = 1 \<and> OriginalFitness (org_store world_log 0) = 3
   \<and> GNome (org_store world_log 1) = 2 \<and> OriginalFitness (org_store world_log 1) = 4"
  by (simp add: log_eval)

text \<open>
  The multipoint and the multipoint-average operator are called on \<^verbatim>\<open>new_genome\<close>,
  and the code does not assign their result (lines 342 and 345): when one of them is
  chosen, \<^verbatim>\<open>new_genome\<close> keeps the value it had before the pass, and the organism
  created in the pass carries that genome.
\<close>

lemma mating_pass_multipoint_result_dropped:
  assumes "reproduce_step ops conf generation sorted_species s k thechamp poolsize cnt (loc, w) = Inr (loc', w')"
    and "\<not> SuperChampOffspring (org_store w thechamp) > 0"
    and "champ_done loc \<or> \<not> k > 5"
    and "\<not> floats (rand w) (drawn (rand w)) < MutateOnlyProb conf" and "poolsize \<noteq> 1"
  shows "\<exists>dad g2.
       choose_dad conf sorted_species s poolsize w ((rand w)\<lparr>drawn := drawn (rand w) + 2\<rparr>) = Inr (dad, g2)
     \<and> (crossover_choice conf (floats g2 (drawn g2)) (floats g2 (drawn g2 + 1)) \<noteq> Singlepoint \<longrightarrow>
           new_genome loc' = new_genome loc \<and> GNome (org_store w' (next_org w)) = new_genome loc)"
proof -
  from mating_pass_closed_form[OF assms] obtain mom dad g2 where
    d: "choose_dad conf sorted_species s poolsize w ((rand w)\<lparr>drawn := drawn (rand w) + 2\<rparr>) = Inr (dad, g2)"
    and rest: "(let momO = org_store w mom; dadO = org_store w dad;
             op = crossover_choice conf (floats g2 (drawn g2)) (floats g2 (drawn g2 + 1));
             recv = (if op = Singlepoint then GNome momO else new_genome loc);
             res = apply_crossover ops op recv (GNome dadO) cnt (OriginalFitness momO) (OriginalFitness dadO) (genomes w);
             g3 = g2\<lparr>drawn := drawn g2 + (if op = Multipoint then 1 else 2)\<rparr>;
             gate = (floats g3 (drawn g3) > MateOnlyProb conf
                     \<or> GenomeId ops (GNome dadO) (snd res) = GenomeId ops (GNome momO) (snd res)
                     \<or> compatibility ops (GNome dadO) (GNome momO) (snd res) = 0)
         in new_genome loc' = (if op = Singlepoint then fst res else new_genome loc)
          \<and> GNome (org_store w' (next_org w)) = new_genome loc'
          \<and> genomes w' =
              (if gate
               then fst (snd (mutate_cascade ops conf generation (new_genome loc') (snd res)
                                 (g3\<lparr>drawn := drawn g3 + 1\<rparr>)))
               else snd res))"
    by auto
  show ?thesis
    apply (rule exI[of _ dad], rule exI[of _ g2])
    using d rest unfolding Let_def by simp
qed

end
